theory Spec2Isabelle
  imports Main
begin

section \<open>The term store\<close>

text \<open>
  The evaluator of \<^verbatim>\<open>eval.cpp\<close> works on heap-allocated term nodes through
  \<^verbatim>\<open>Term*\<close> pointers. It overwrites fields of existing nodes (\<^verbatim>\<open>eval_def\<close>,
  \<^verbatim>\<open>eval_call\<close>), compares pointers (\<^verbatim>\<open>std::set<Term*>\<close> in \<^verbatim>\<open>eval_union_table\<close>)
  and returns \<^verbatim>\<open>nullptr\<close> (\<^verbatim>\<open>eval_ref\<close>), so the model keeps an explicit store:
  a pointer is \<open>None\<close> (the null pointer) or \<open>Some a\<close>, where \<open>a\<close> is the index of a node
  in the list of all nodes allocated so far. \<^verbatim>\<open>new\<close> appends to the list; nothing is
  ever freed.

  A node carries its kind tag and the payload the evaluator reads. Source locations
  and the static type stored on each node (\<^verbatim>\<open>t->loc\<close>, \<^verbatim>\<open>get_type(t)\<close>) are not
  modelled: the evaluator only copies them. A \<^verbatim>\<open>Term_seq\<close> is kept inside the node that
  owns it. \<^verbatim>\<open>Integer\<close> is an arbitrary-precision integer.
\<close>

type_synonym ptr = "nat option"

datatype node =
    true_term
  | false_term
  | int_term int
  | unit_term
  | name_term string
  | type_expr string
  | var_term ptr ptr
  | abs_term ptr ptr
  | fn_term "ptr list" ptr
  | init_term ptr ptr
  | record_term "ptr list"
  | table_term "ptr list" "ptr list"
  | if_term ptr ptr ptr
  | and_term ptr ptr
  | or_term ptr ptr
  | not_term ptr
  | equals_term ptr ptr
  | less_term ptr ptr
  | succ_term ptr
  | pred_term ptr
  | iszero_term ptr
  | app_term ptr ptr
  | call_term ptr "ptr list"
  | ref_term ptr
  | print_term ptr
  | def_term ptr ptr
  | prog_term "ptr list"
  | comma_term "ptr list"
  | proj_term ptr ptr
  | mem_term ptr ptr
  | select_term ptr ptr ptr
  | join_on_term ptr ptr ptr ptr
  | union_term ptr ptr
  | inter_term ptr ptr
  | except_term ptr ptr

text \<open>
  The ways a run ends without a result. \<open>Undefined\<close> is undefined behaviour of the C++
  program: a null or wild pointer dereferenced, an uninitialised variable read, the
  end of a value-returning function reached. \<open>Diverged\<close> is a recursion deeper than
  the bound the model was given.

  Modelled from the spec: \<^verbatim>\<open>lang_unreachable\<close> and \<^verbatim>\<open>lang_assert\<close> are macros of
  \<^verbatim>\<open>lang/debug.hpp\<close>, outside the sources. The spec makes the failures they report
  fatal: unrecoverable, aborting the evaluation of the whole program. \<open>Fatal\<close> is that
  abort.
\<close>

datatype error = Fatal | Undefined | Diverged

type_synonym 'a result = "error + 'a"

text \<open>
  The state of a run: the store, the characters written to \<^verbatim>\<open>std::cout\<close> so far, and
  the machine address of every node. The index of a node says when it was allocated,
  not where: \<open>address s a\<close> is the address at which the allocator placed, or will place,
  the node of index \<open>a\<close>. The evaluator depends on it in one place only, where
  \<^verbatim>\<open>eval_union_table\<close> orders pointers. The null pointer has address \<open>0\<close>.
\<close>

record state =
  heap :: "node list"
  cout :: string
  address :: "nat \<Rightarrow> nat"

definition ptr_address :: "state \<Rightarrow> ptr \<Rightarrow> nat" where
  "ptr_address s p = (case p of None \<Rightarrow> 0 | Some a \<Rightarrow> address s a)"

type_synonym evaluator = "state \<Rightarrow> ptr \<Rightarrow> (ptr \<times> state) result"

definition look :: "state \<Rightarrow> ptr \<Rightarrow> node option result" where
  "look s p =
     (case p of
        None \<Rightarrow> Inr None
      | Some a \<Rightarrow> if a < length (heap s) then Inr (Some (heap s ! a)) else Inl Undefined)"

definition deref :: "state \<Rightarrow> ptr \<Rightarrow> node result" where
  "deref s p =
     (case look s p of
        Inl e \<Rightarrow> Inl e
      | Inr None \<Rightarrow> Inl Undefined
      | Inr (Some nd) \<Rightarrow> Inr nd)"

definition new_node :: "node \<Rightarrow> state \<Rightarrow> ptr \<times> state" where
  "new_node nd s = (Some (length (heap s)), s\<lparr>heap := heap s @ [nd]\<rparr>)"

definition cout_write :: "string \<Rightarrow> state \<Rightarrow> state" where
  "cout_write txt s = s\<lparr>cout := cout s @ txt\<rparr>"

text \<open>
  Modelled from the spec: the cast \<^verbatim>\<open>as<T>\<close> and the class hierarchy are declared in
  headers outside the sources. The spec has a term be a node discriminated by its
  kind tag, and a \<^verbatim>\<open>Def\<close> or a \<^verbatim>\<open>Print\<close> hold either a term or a type. \<^verbatim>\<open>as<T>(p)\<close>
  is a dynamic cast: null for a null pointer and for a node of another kind; the
  functions \<open>as_...\<close> give the payload of the node instead of the pointer. \<open>is_Term\<close>
  separates terms from types.
\<close>

definition is_Term :: "node \<Rightarrow> bool" where
  "is_Term nd = (case nd of type_expr _ \<Rightarrow> False | _ \<Rightarrow> True)"

definition as_Int :: "node option \<Rightarrow> int option" where
  "as_Int x = (case x of Some (int_term z) \<Rightarrow> Some z | _ \<Rightarrow> None)"

definition as_Abs :: "node option \<Rightarrow> (ptr \<times> ptr) option" where
  "as_Abs x = (case x of Some (abs_term v b) \<Rightarrow> Some (v, b) | _ \<Rightarrow> None)"

definition as_Fn :: "node option \<Rightarrow> (ptr list \<times> ptr) option" where
  "as_Fn x = (case x of Some (fn_term ps b) \<Rightarrow> Some (ps, b) | _ \<Rightarrow> None)"

definition as_Def :: "node option \<Rightarrow> (ptr \<times> ptr) option" where
  "as_Def x = (case x of Some (def_term n v) \<Rightarrow> Some (n, v) | _ \<Rightarrow> None)"

definition as_Init :: "node option \<Rightarrow> (ptr \<times> ptr) option" where
  "as_Init x = (case x of Some (init_term n v) \<Rightarrow> Some (n, v) | _ \<Rightarrow> None)"

definition as_Record :: "node option \<Rightarrow> ptr list option" where
  "as_Record x = (case x of Some (record_term ms) \<Rightarrow> Some ms | _ \<Rightarrow> None)"

definition as_Table :: "node option \<Rightarrow> (ptr list \<times> ptr list) option" where
  "as_Table x = (case x of Some (table_term sc ms) \<Rightarrow> Some (sc, ms) | _ \<Rightarrow> None)"

text \<open>
  Modelled from the spec: \<^verbatim>\<open>is_true\<close> and \<^verbatim>\<open>is_false\<close> are declared outside the
  sources. The spec has them tell whether a result is the boolean true or the
  boolean false; they read the kind tag of the node their argument points to.
\<close>

definition is_true :: "state \<Rightarrow> ptr \<Rightarrow> bool result" where
  "is_true s p = (case deref s p of Inl e \<Rightarrow> Inl e | Inr nd \<Rightarrow> Inr (nd = true_term))"

definition is_false :: "state \<Rightarrow> ptr \<Rightarrow> bool result" where
  "is_false s p = (case deref s p of Inl e \<Rightarrow> Inl e | Inr nd \<Rightarrow> Inr (nd = false_term))"

text \<open>
  Modelled from the spec: \<^verbatim>\<open>get_true\<close>, \<^verbatim>\<open>get_false\<close> and \<^verbatim>\<open>get_unit\<close> are
  declared outside the sources. The spec has the boolean operators produce the
  values true and false and a bare comma list the value unit; each call hands out a
  node of the kind, as \<^verbatim>\<open>new True(...)\<close> does in \<^verbatim>\<open>eval_iszero\<close>.
\<close>

definition get_true :: "state \<Rightarrow> ptr \<times> state" where
  "get_true s = new_node true_term s"

definition get_false :: "state \<Rightarrow> ptr \<times> state" where
  "get_false s = new_node false_term s"

definition get_unit :: "state \<Rightarrow> ptr \<times> state" where
  "get_unit s = new_node unit_term s"

text \<open>
  \<^verbatim>\<open>as<T>(p)\<close> where the pointer itself is used afterwards: \<open>p\<close> when it points to a
  node that satisfies \<open>P\<close>, null otherwise.
\<close>

definition cast :: "(node \<Rightarrow> bool) \<Rightarrow> state \<Rightarrow> ptr \<Rightarrow> ptr result" where
  "cast P s p =
     (case look s p of
        Inl e \<Rightarrow> Inl e
      | Inr None \<Rightarrow> Inr None
      | Inr (Some nd) \<Rightarrow> Inr (if P nd then p else None))"

definition is_Name :: "node \<Rightarrow> bool" where
  "is_Name nd = (case nd of name_term _ \<Rightarrow> True | _ \<Rightarrow> False)"

section \<open>The services the evaluator calls\<close>

text \<open>
  Modelled from the spec: the pretty-printer \<^verbatim>\<open>pretty\<close> is a formatting service that
  the evaluator only calls; its code is not part of the sources. The spec fixes that
  the integer two is rendered \<^verbatim>\<open>2\<close> and the true value \<^verbatim>\<open>true\<close>. Integers are
  rendered in decimal, the other atoms by their keyword or text, and every compound
  term by a placeholder, its layout being outside the spec.
\<close>

fun digits :: "nat \<Rightarrow> string" where
  "digits n =
     (if n < 10 then [''0123456789'' ! n]
      else digits (n div 10) @ [''0123456789'' ! (n mod 10)])"

declare digits.simps [simp del]

definition pretty_node :: "node \<Rightarrow> string" where
  "pretty_node nd =
     (case nd of
        true_term \<Rightarrow> ''true''
      | false_term \<Rightarrow> ''false''
      | int_term z \<Rightarrow> (if z < 0 then ''-'' @ digits (nat (- z)) else digits (nat z))
      | unit_term \<Rightarrow> ''<unit>''
      | name_term x \<Rightarrow> x
      | type_expr x \<Rightarrow> x
      | _ \<Rightarrow> ''<term>'')"

definition pretty :: "state \<Rightarrow> ptr \<Rightarrow> string" where
  "pretty s p = (case look s p of Inr (Some nd) \<Rightarrow> pretty_node nd | _ \<Rightarrow> ''<null>'')"

text \<open>
  Modelled from the spec: \<^verbatim>\<open>is_same\<close> is declared outside the sources. The spec
  describes it as structural value equality: integers by numeric value, booleans by
  identity, units trivially equal, tables by set-equality of schema and records,
  records by equality of their label/value bindings irrespective of order. Names are
  compared by their text, and any other two nodes are the same only when they are one
  node. The comparison dereferences both pointers. Its recursion is bounded by the
  number of nodes in the store, which no path through an acyclic term exceeds.
\<close>

fun all_result :: "('a \<Rightarrow> bool result) \<Rightarrow> 'a list \<Rightarrow> bool result" where
  "all_result f [] = Inr True"
| "all_result f (x # xs) =
     (case f x of
        Inl e \<Rightarrow> Inl e
      | Inr b \<Rightarrow> (case all_result f xs of Inl e \<Rightarrow> Inl e | Inr c \<Rightarrow> Inr (b \<and> c)))"

fun any_result :: "('a \<Rightarrow> bool result) \<Rightarrow> 'a list \<Rightarrow> bool result" where
  "any_result f [] = Inr False"
| "any_result f (x # xs) =
     (case f x of
        Inl e \<Rightarrow> Inl e
      | Inr b \<Rightarrow> (case any_result f xs of Inl e \<Rightarrow> Inl e | Inr c \<Rightarrow> Inr (b \<or> c)))"

definition same_set :: "(ptr \<Rightarrow> ptr \<Rightarrow> bool result) \<Rightarrow> ptr list \<Rightarrow> ptr list \<Rightarrow> bool result" where
  "same_set f xs ys =
     all_result (\<lambda>b. b)
       [all_result (\<lambda>x. any_result (f x) ys) xs, all_result (\<lambda>y. any_result (\<lambda>x. f x y) xs) ys]"

primrec same_upto :: "nat \<Rightarrow> node list \<Rightarrow> ptr \<Rightarrow> ptr \<Rightarrow> bool result" where
  "same_upto 0 h p q = Inl Diverged"
| "same_upto (Suc k) h p q =
     (case p of
        None \<Rightarrow> Inl Undefined
      | Some a \<Rightarrow>
          (case q of
             None \<Rightarrow> Inl Undefined
           | Some b \<Rightarrow>
               if \<not> (a < length h \<and> b < length h) then Inl Undefined
               else
                 (case h ! a of
                    int_term x \<Rightarrow> Inr (h ! b = int_term x)
                  | true_term \<Rightarrow> Inr (h ! b = true_term)
                  | false_term \<Rightarrow> Inr (h ! b = false_term)
                  | unit_term \<Rightarrow> Inr (h ! b = unit_term)
                  | name_term x \<Rightarrow> Inr (h ! b = name_term x)
                  | init_term n v \<Rightarrow>
                      (case as_Init (Some (h ! b)) of
                         None \<Rightarrow> Inr False
                       | Some (n', v') \<Rightarrow>
                           all_result (\<lambda>b. b) [same_upto k h n n', same_upto k h v v'])
                  | record_term ms \<Rightarrow>
                      (case as_Record (Some (h ! b)) of
                         None \<Rightarrow> Inr False
                       | Some ms' \<Rightarrow> same_set (same_upto k h) ms ms')
                  | table_term sc ms \<Rightarrow>
                      (case as_Table (Some (h ! b)) of
                         None \<Rightarrow> Inr False
                       | Some (sc', ms') \<Rightarrow>
                           all_result (\<lambda>b. b)
                             [same_set (same_upto k h) sc sc', same_set (same_upto k h) ms ms'])
                  | _ \<Rightarrow> Inr (a = b))))"

definition is_same :: "state \<Rightarrow> ptr \<Rightarrow> ptr \<Rightarrow> bool result" where
  "is_same s p q = same_upto (Suc (length (heap s))) (heap s) p q"

text \<open>
  Modelled from the spec: \<^verbatim>\<open>is_less\<close> is declared outside the sources. The spec
  defines it for integers as numeric \<open><\<close> and asks for a reported type error on
  any other operand.
\<close>

definition is_less :: "state \<Rightarrow> ptr \<Rightarrow> ptr \<Rightarrow> bool result" where
  "is_less s p q =
     (case look s p of
        Inl e \<Rightarrow> Inl e
      | Inr x \<Rightarrow>
          (case look s q of
             Inl e \<Rightarrow> Inl e
           | Inr y \<Rightarrow>
               (case as_Int x of
                  None \<Rightarrow> Inl Fatal
                | Some m \<Rightarrow> (case as_Int y of None \<Rightarrow> Inl Fatal | Some n \<Rightarrow> Inr (m < n)))))"

text \<open>
  Modelled from the spec: the substitution class \<^verbatim>\<open>Subst\<close> and \<^verbatim>\<open>subst_term\<close> are
  declared in \<^verbatim>\<open>subst.hpp\<close>, outside the sources. The spec gives their contract: a
  mapping from bound variables to argument values, and a pure tree-rebuilding
  transformation that returns a new term with the free occurrences replaced; it
  names no way for the substitution to fail. A variable is the declaration node a
  \<^verbatim>\<open>Ref\<close> points to, so a replacement is found by the pointer and no name can be
  captured. All variables are replaced in one pass, and an argument put in place of
  a reference is not visited again.

  \<open>Subst_var\<close> is \<^verbatim>\<open>Subst {var, arg}\<close>. \<open>Subst_seq\<close> is \<^verbatim>\<open>Subst {parms, args}\<close>: it maps
  each parameter to the argument at the same position.
\<close>

type_synonym subst = "(ptr \<times> ptr) list"

definition Subst_var :: "ptr \<Rightarrow> ptr \<Rightarrow> subst" where
  "Subst_var v arg = [(v, arg)]"

definition Subst_seq :: "ptr list \<Rightarrow> ptr list \<Rightarrow> subst" where
  "Subst_seq parms args = zip parms args"

text \<open>
  The sub-terms a substitution rebuilds, and the node rebuilt around new sub-terms.
  Declarations (\<^verbatim>\<open>Var\<close>, \<^verbatim>\<open>Def\<close>), the bound variables of \<^verbatim>\<open>Abs\<close> and \<^verbatim>\<open>Fn\<close> and the
  label of an \<^verbatim>\<open>Init\<close> are shared, not copied.
\<close>

definition children :: "node \<Rightarrow> ptr list" where
  "children nd =
     (case nd of
        abs_term v b \<Rightarrow> [b]
      | fn_term ps b \<Rightarrow> [b]
      | init_term n v \<Rightarrow> [v]
      | record_term ms \<Rightarrow> ms
      | table_term sc ms \<Rightarrow> sc @ ms
      | if_term c a b \<Rightarrow> [c, a, b]
      | and_term a b \<Rightarrow> [a, b]
      | or_term a b \<Rightarrow> [a, b]
      | not_term a \<Rightarrow> [a]
      | equals_term a b \<Rightarrow> [a, b]
      | less_term a b \<Rightarrow> [a, b]
      | succ_term a \<Rightarrow> [a]
      | pred_term a \<Rightarrow> [a]
      | iszero_term a \<Rightarrow> [a]
      | app_term f a \<Rightarrow> [f, a]
      | call_term f xs \<Rightarrow> f # xs
      | print_term e \<Rightarrow> [e]
      | prog_term ss \<Rightarrow> ss
      | comma_term ss \<Rightarrow> ss
      | proj_term a b \<Rightarrow> [a, b]
      | mem_term a b \<Rightarrow> [a, b]
      | select_term a b c \<Rightarrow> [a, b, c]
      | join_on_term a b c d \<Rightarrow> [a, b, c, d]
      | union_term a b \<Rightarrow> [a, b]
      | inter_term a b \<Rightarrow> [a, b]
      | except_term a b \<Rightarrow> [a, b]
      | _ \<Rightarrow> [])"

definition rebuild :: "node \<Rightarrow> ptr list \<Rightarrow> node" where
  "rebuild nd cs =
     (case nd of
        abs_term v b \<Rightarrow> abs_term v (cs ! 0)
      | fn_term ps b \<Rightarrow> fn_term ps (cs ! 0)
      | init_term n v \<Rightarrow> init_term n (cs ! 0)
      | record_term ms \<Rightarrow> record_term cs
      | table_term sc ms \<Rightarrow> table_term (take (length sc) cs) (drop (length sc) cs)
      | if_term c a b \<Rightarrow> if_term (cs ! 0) (cs ! 1) (cs ! 2)
      | and_term a b \<Rightarrow> and_term (cs ! 0) (cs ! 1)
      | or_term a b \<Rightarrow> or_term (cs ! 0) (cs ! 1)
      | not_term a \<Rightarrow> not_term (cs ! 0)
      | equals_term a b \<Rightarrow> equals_term (cs ! 0) (cs ! 1)
      | less_term a b \<Rightarrow> less_term (cs ! 0) (cs ! 1)
      | succ_term a \<Rightarrow> succ_term (cs ! 0)
      | pred_term a \<Rightarrow> pred_term (cs ! 0)
      | iszero_term a \<Rightarrow> iszero_term (cs ! 0)
      | app_term f a \<Rightarrow> app_term (cs ! 0) (cs ! 1)
      | call_term f xs \<Rightarrow> call_term (cs ! 0) (drop 1 cs)
      | print_term e \<Rightarrow> print_term (cs ! 0)
      | prog_term ss \<Rightarrow> prog_term cs
      | comma_term ss \<Rightarrow> comma_term cs
      | proj_term a b \<Rightarrow> proj_term (cs ! 0) (cs ! 1)
      | mem_term a b \<Rightarrow> mem_term (cs ! 0) (cs ! 1)
      | select_term a b c \<Rightarrow> select_term (cs ! 0) (cs ! 1) (cs ! 2)
      | join_on_term a b c d \<Rightarrow> join_on_term (cs ! 0) (cs ! 1) (cs ! 2) (cs ! 3)
      | union_term a b \<Rightarrow> union_term (cs ! 0) (cs ! 1)
      | inter_term a b \<Rightarrow> inter_term (cs ! 0) (cs ! 1)
      | except_term a b \<Rightarrow> except_term (cs ! 0) (cs ! 1)
      | _ \<Rightarrow> nd)"

fun subst_seq :: "evaluator \<Rightarrow> state \<Rightarrow> ptr list \<Rightarrow> (ptr list \<times> state) result" where
  "subst_seq f s [] = Inr ([], s)"
| "subst_seq f s (t # ts) =
     (case f s t of
        Inl e \<Rightarrow> Inl e
      | Inr (t', s1) \<Rightarrow>
          (case subst_seq f s1 ts of
             Inl e \<Rightarrow> Inl e
           | Inr (ts', s2) \<Rightarrow> Inr (t' # ts', s2)))"

primrec subst_upto :: "nat \<Rightarrow> subst \<Rightarrow> state \<Rightarrow> ptr \<Rightarrow> (ptr \<times> state) result" where
  "subst_upto 0 sub s t = Inl Diverged"
| "subst_upto (Suc k) sub s t =
     (case look s t of
        Inl e \<Rightarrow> Inl e
      | Inr None \<Rightarrow> Inr (None, s)
      | Inr (Some nd) \<Rightarrow>
          (case nd of
             ref_term d \<Rightarrow> (case map_of sub d of Some v \<Rightarrow> Inr (v, s) | None \<Rightarrow> Inr (t, s))
           | _ \<Rightarrow>
               if children nd = [] then Inr (t, s)
               else
                 (case subst_seq (subst_upto k sub) s (children nd) of
                    Inl e \<Rightarrow> Inl e
                  | Inr (cs, s1) \<Rightarrow> Inr (new_node (rebuild nd cs) s1))))"

definition subst_term :: "state \<Rightarrow> ptr \<Rightarrow> subst \<Rightarrow> (ptr \<times> state) result" where
  "subst_term s t sub = subst_upto (Suc (length (heap s))) sub s t"

section \<open>The evaluator\<close>

text \<open>
  Each \<^verbatim>\<open>eval_...\<close> function of \<^verbatim>\<open>eval.cpp\<close> is one definition. The functions call
  \<^verbatim>\<open>eval\<close> recursively; here the recursive \<^verbatim>\<open>eval\<close> is the argument \<open>ev\<close>, and \<open>eval\<close>
  below ties the knot. A function takes the state and returns the new one with its
  result, or an error.
\<close>

definition eval_if :: "evaluator \<Rightarrow> state \<Rightarrow> ptr \<Rightarrow> ptr \<Rightarrow> ptr \<Rightarrow> (ptr \<times> state) result" where
  "eval_if ev s c a b =
     (case ev s c of
        Inl e \<Rightarrow> Inl e
      | Inr (bv, s1) \<Rightarrow>
          (case is_true s1 bv of
             Inl e \<Rightarrow> Inl e
           | Inr True \<Rightarrow> ev s1 a
           | Inr False \<Rightarrow>
               (case is_false s1 bv of
                  Inl e \<Rightarrow> Inl e
                | Inr True \<Rightarrow> ev s1 b
                | Inr False \<Rightarrow> Inl Fatal)))"

definition eval_succ :: "evaluator \<Rightarrow> state \<Rightarrow> ptr \<Rightarrow> (ptr \<times> state) result" where
  "eval_succ ev s arg =
     (case ev s arg of
        Inl e \<Rightarrow> Inl e
      | Inr (t1, s1) \<Rightarrow>
          (case look s1 t1 of
             Inl e \<Rightarrow> Inl e
           | Inr x \<Rightarrow>
               (case as_Int x of
                  Some z \<Rightarrow> Inr (new_node (int_term (z + 1)) s1)
                | None \<Rightarrow> Inl Fatal)))"

definition eval_pred :: "evaluator \<Rightarrow> state \<Rightarrow> ptr \<Rightarrow> (ptr \<times> state) result" where
  "eval_pred ev s arg =
     (case ev s arg of
        Inl e \<Rightarrow> Inl e
      | Inr (t1, s1) \<Rightarrow>
          (case look s1 t1 of
             Inl e \<Rightarrow> Inl e
           | Inr x \<Rightarrow>
               (case as_Int x of
                  Some z \<Rightarrow> if z = 0 then Inr (t1, s1) else Inr (new_node (int_term (z - 1)) s1)
                | None \<Rightarrow> Inl Fatal)))"

definition eval_iszero :: "evaluator \<Rightarrow> state \<Rightarrow> ptr \<Rightarrow> (ptr \<times> state) result" where
  "eval_iszero ev s arg =
     (case ev s arg of
        Inl e \<Rightarrow> Inl e
      | Inr (t1, s1) \<Rightarrow>
          (case look s1 t1 of
             Inl e \<Rightarrow> Inl e
           | Inr x \<Rightarrow>
               (case as_Int x of
                  Some z \<Rightarrow>
                    if z = 0 then Inr (new_node true_term s1) else Inr (new_node false_term s1)
                | None \<Rightarrow> Inl Fatal)))"

text \<open>
  \<^verbatim>\<open>eval_app\<close>: the target is evaluated and asserted to be an \<^verbatim>\<open>Abs\<close>, then the argument
  is evaluated, then \<^verbatim>\<open>fn->var()\<close> and \<^verbatim>\<open>fn->term()\<close> are read.
\<close>

definition eval_app :: "evaluator \<Rightarrow> state \<Rightarrow> ptr \<Rightarrow> ptr \<Rightarrow> (ptr \<times> state) result" where
  "eval_app ev s f a =
     (case ev s f of
        Inl e \<Rightarrow> Inl e
      | Inr (fn, s1) \<Rightarrow>
          (case look s1 fn of
             Inl e \<Rightarrow> Inl e
           | Inr x \<Rightarrow>
               (case as_Abs x of
                  None \<Rightarrow> Inl Fatal
                | Some _ \<Rightarrow>
                    (case ev s1 a of
                       Inl e \<Rightarrow> Inl e
                     | Inr (arg, s2) \<Rightarrow>
                         (case look s2 fn of
                            Inl e \<Rightarrow> Inl e
                          | Inr y \<Rightarrow>
                              (case as_Abs y of
                                 None \<Rightarrow> Inl Undefined
                               | Some (v, b) \<Rightarrow>
                                   (case subst_term s2 b (Subst_var v arg) of
                                      Inl e \<Rightarrow> Inl e
                                    | Inr (res, s3) \<Rightarrow> ev s3 res)))))))"

text \<open>
  \<^verbatim>\<open>eval_call\<close> evaluates the arguments in place: the loop
  \<^verbatim>\<open>for (Term*& a : *args) a = eval(a);\<close> reads entry \<open>i\<close> of the sequence the \<^verbatim>\<open>Call\<close>
  node owns, evaluates it and writes the result back to entry \<open>i\<close>, for \<open>i\<close> from \<open>0\<close>
  up to the length the sequence had when the loop began. \<open>c\<close> is the index of the
  \<^verbatim>\<open>Call\<close> node. After the loop the parameters of the function and the sequence of
  evaluated arguments go to \<^verbatim>\<open>Subst\<close> as they are: \<^verbatim>\<open>eval_call\<close> does not compare their
  lengths.
\<close>

definition args_of :: "state \<Rightarrow> nat \<Rightarrow> ptr list" where
  "args_of s c = (case heap s ! c of call_term f xs \<Rightarrow> xs | _ \<Rightarrow> [])"

definition set_arg :: "node \<Rightarrow> nat \<Rightarrow> ptr \<Rightarrow> node" where
  "set_arg nd i v = (case nd of call_term f xs \<Rightarrow> call_term f (xs[i := v]) | _ \<Rightarrow> nd)"

definition store_arg :: "state \<Rightarrow> nat \<Rightarrow> nat \<Rightarrow> ptr \<Rightarrow> state" where
  "store_arg s c i v = s\<lparr>heap := (heap s)[c := set_arg (heap s ! c) i v]\<rparr>"

fun eval_args :: "evaluator \<Rightarrow> state \<Rightarrow> nat \<Rightarrow> nat \<Rightarrow> nat \<Rightarrow> state result" where
  "eval_args ev s c i 0 = Inr s"
| "eval_args ev s c i (Suc k) =
     (if i < length (args_of s c) then
        (case ev s (args_of s c ! i) of
           Inl e \<Rightarrow> Inl e
         | Inr (v, s1) \<Rightarrow> eval_args ev (store_arg s1 c i v) c (Suc i) k)
      else Inl Undefined)"

definition eval_call :: "evaluator \<Rightarrow> state \<Rightarrow> nat \<Rightarrow> ptr \<Rightarrow> (ptr \<times> state) result" where
  "eval_call ev s c f =
     (case ev s f of
        Inl e \<Rightarrow> Inl e
      | Inr (fn, s0) \<Rightarrow>
          (case look s0 fn of
             Inl e \<Rightarrow> Inl e
           | Inr x \<Rightarrow>
               (case as_Fn x of
                  None \<Rightarrow> Inl Fatal
                | Some _ \<Rightarrow>
                    (case eval_args ev s0 c 0 (length (args_of s0 c)) of
                       Inl e \<Rightarrow> Inl e
                     | Inr s1 \<Rightarrow>
                         (case look s1 fn of
                            Inl e \<Rightarrow> Inl e
                          | Inr y \<Rightarrow>
                              (case as_Fn y of
                                 None \<Rightarrow> Inl Undefined
                               | Some (parms, body) \<Rightarrow>
                                   (case subst_term s1 body
                                           (Subst_seq parms (args_of s1 c)) of
                                      Inl e \<Rightarrow> Inl e
                                    | Inr (res, s2) \<Rightarrow> ev s2 res)))))))"

text \<open>\<^verbatim>\<open>eval_ref\<close>: \<open>t\<close> is the pointer to the \<^verbatim>\<open>Ref\<close> node, \<open>d\<close> its declaration.\<close>

definition eval_ref :: "state \<Rightarrow> ptr \<Rightarrow> ptr \<Rightarrow> (ptr \<times> state) result" where
  "eval_ref s t d =
     (case look s d of
        Inl e \<Rightarrow> Inl e
      | Inr x \<Rightarrow>
          (case as_Def x of
             Some (n, v) \<Rightarrow>
               (case cast is_Term s v of
                  Inl e \<Rightarrow> Inl e
                | Inr None \<Rightarrow> Inr (None, s)
                | Inr (Some r) \<Rightarrow> Inr (Some r, s))
           | None \<Rightarrow> Inr (t, s)))"

text \<open>
  \<^verbatim>\<open>eval_def\<close>: \<open>a\<close> is the index of the \<^verbatim>\<open>Def\<close> node and \<open>v\<close> its value. The
  assignment \<^verbatim>\<open>t->t2 = eval(t0)\<close> overwrites the value field of the node.
\<close>

definition set_t2 :: "node \<Rightarrow> ptr \<Rightarrow> node" where
  "set_t2 nd r = (case nd of def_term n v \<Rightarrow> def_term n r | _ \<Rightarrow> nd)"

definition eval_def :: "evaluator \<Rightarrow> state \<Rightarrow> nat \<Rightarrow> ptr \<Rightarrow> (ptr \<times> state) result" where
  "eval_def ev s a v =
     (case cast is_Term s v of
        Inl e \<Rightarrow> Inl e
      | Inr None \<Rightarrow> Inr (Some a, s)
      | Inr (Some t0) \<Rightarrow>
          (case ev s (Some t0) of
             Inl e \<Rightarrow> Inl e
           | Inr (r, s1) \<Rightarrow> Inr (Some a, s1\<lparr>heap := (heap s1)[a := set_t2 (heap s1 ! a) r]\<rparr>)))"

definition eval_print :: "evaluator \<Rightarrow> state \<Rightarrow> ptr \<Rightarrow> (ptr \<times> state) result" where
  "eval_print ev s e =
     (case cast is_Term s e of
        Inl err \<Rightarrow> Inl err
      | Inr term \<Rightarrow>
          (case (if term \<noteq> None then ev s term else Inr (None, s)) of
             Inl err \<Rightarrow> Inl err
           | Inr (val, s1) \<Rightarrow>
               Inr (new_node unit_term
                 (cout_write
                    ((if val \<noteq> None then pretty s1 val else pretty s1 e) @ [CHR 0x0A]) s1))))"

definition eval_comma :: "state \<Rightarrow> (ptr \<times> state) result" where
  "eval_comma s = Inr (get_unit s)"

text \<open>
  \<^verbatim>\<open>eval_prog\<close>: the local \<^verbatim>\<open>Term* tn\<close> is declared without an initialiser; \<open>None\<close>
  stands for the variable not yet assigned.
\<close>

fun prog_loop :: "evaluator \<Rightarrow> ptr option \<Rightarrow> state \<Rightarrow> ptr list \<Rightarrow> (ptr option \<times> state) result" where
  "prog_loop ev tn s [] = Inr (tn, s)"
| "prog_loop ev tn s (ti # rest) =
     (case ev s ti of
        Inl e \<Rightarrow> Inl e
      | Inr (r, s1) \<Rightarrow> prog_loop ev (Some r) s1 rest)"

definition eval_prog :: "evaluator \<Rightarrow> state \<Rightarrow> ptr list \<Rightarrow> (ptr \<times> state) result" where
  "eval_prog ev s stmts =
     (case prog_loop ev None s stmts of
        Inl e \<Rightarrow> Inl e
      | Inr (None, s1) \<Rightarrow> Inl Undefined
      | Inr (Some tn, s1) \<Rightarrow> Inr (tn, s1))"

definition eval_and :: "evaluator \<Rightarrow> state \<Rightarrow> ptr \<Rightarrow> ptr \<Rightarrow> (ptr \<times> state) result" where
  "eval_and ev s a b =
     (case ev s a of
        Inl e \<Rightarrow> Inl e
      | Inr (t1, s1) \<Rightarrow>
          (case ev s1 b of
             Inl e \<Rightarrow> Inl e
           | Inr (t2, s2) \<Rightarrow>
               (case is_true s2 t1 of
                  Inl e \<Rightarrow> Inl e
                | Inr False \<Rightarrow> Inr (get_false s2)
                | Inr True \<Rightarrow>
                    (case is_true s2 t2 of
                       Inl e \<Rightarrow> Inl e
                     | Inr True \<Rightarrow> Inr (get_true s2)
                     | Inr False \<Rightarrow> Inr (get_false s2)))))"

definition eval_or :: "evaluator \<Rightarrow> state \<Rightarrow> ptr \<Rightarrow> ptr \<Rightarrow> (ptr \<times> state) result" where
  "eval_or ev s a b =
     (case ev s a of
        Inl e \<Rightarrow> Inl e
      | Inr (t1, s1) \<Rightarrow>
          (case ev s1 b of
             Inl e \<Rightarrow> Inl e
           | Inr (t2, s2) \<Rightarrow>
               (case is_false s2 t1 of
                  Inl e \<Rightarrow> Inl e
                | Inr False \<Rightarrow> Inr (get_true s2)
                | Inr True \<Rightarrow>
                    (case is_false s2 t2 of
                       Inl e \<Rightarrow> Inl e
                     | Inr True \<Rightarrow> Inr (get_false s2)
                     | Inr False \<Rightarrow> Inr (get_true s2)))))"

text \<open>
  \<^verbatim>\<open>eval_not\<close> has no \<^verbatim>\<open>return\<close> after its two tests: for an operand that is neither
  true nor false, control reaches the end of the function.
\<close>

definition eval_not :: "evaluator \<Rightarrow> state \<Rightarrow> ptr \<Rightarrow> (ptr \<times> state) result" where
  "eval_not ev s a =
     (case ev s a of
        Inl e \<Rightarrow> Inl e
      | Inr (t1, s1) \<Rightarrow>
          (case is_true s1 t1 of
             Inl e \<Rightarrow> Inl e
           | Inr True \<Rightarrow> Inr (get_false s1)
           | Inr False \<Rightarrow>
               (case is_false s1 t1 of
                  Inl e \<Rightarrow> Inl e
                | Inr True \<Rightarrow> Inr (get_true s1)
                | Inr False \<Rightarrow> Inl Undefined)))"

definition eval_equals :: "evaluator \<Rightarrow> state \<Rightarrow> ptr \<Rightarrow> ptr \<Rightarrow> (ptr \<times> state) result" where
  "eval_equals ev s a b =
     (case ev s a of
        Inl e \<Rightarrow> Inl e
      | Inr (t1, s1) \<Rightarrow>
          (case ev s1 b of
             Inl e \<Rightarrow> Inl e
           | Inr (t2, s2) \<Rightarrow>
               (case is_same s2 t1 t2 of
                  Inl e \<Rightarrow> Inl e
                | Inr True \<Rightarrow> Inr (get_true s2)
                | Inr False \<Rightarrow> Inr (get_false s2))))"

text \<open>
  \<^verbatim>\<open>eval_less\<close> writes both evaluated operands to \<^verbatim>\<open>std::cout\<close> before it compares
  them.
\<close>

definition eval_less :: "evaluator \<Rightarrow> state \<Rightarrow> ptr \<Rightarrow> ptr \<Rightarrow> (ptr \<times> state) result" where
  "eval_less ev s a b =
     (case ev s a of
        Inl e \<Rightarrow> Inl e
      | Inr (t1, s1) \<Rightarrow>
          (case ev s1 b of
             Inl e \<Rightarrow> Inl e
           | Inr (t2, s2) \<Rightarrow>
               (let s3 = cout_write (pretty s2 t1) s2;
                    s4 = cout_write (pretty s3 t2) s3
                in case is_less s4 t1 t2 of
                     Inl e \<Rightarrow> Inl e
                   | Inr True \<Rightarrow> Inr (get_true s4)
                   | Inr False \<Rightarrow> Inr (get_false s4))))"

subsection \<open>Relational algebra\<close>

definition is_Record :: "node \<Rightarrow> bool" where
  "is_Record nd = (case nd of record_term _ \<Rightarrow> True | _ \<Rightarrow> False)"

definition is_Table :: "node \<Rightarrow> bool" where
  "is_Table nd = (case nd of table_term _ _ \<Rightarrow> True | _ \<Rightarrow> False)"

definition is_Comma :: "node \<Rightarrow> bool" where
  "is_Comma nd = (case nd of comma_term _ \<Rightarrow> True | _ \<Rightarrow> False)"

text \<open>
  \<^verbatim>\<open>eval_record_project\<close>: the loop over the members of record \<open>r\<close>; a member that is
  not an \<^verbatim>\<open>Init\<close> makes \<^verbatim>\<open>as<Init>(t)->name()\<close> a null dereference.
\<close>

fun record_project_loop :: "state \<Rightarrow> ptr \<Rightarrow> ptr list \<Rightarrow> ptr result" where
  "record_project_loop s l [] = Inr None"
| "record_project_loop s l (t # ts) =
     (case look s t of
        Inl e \<Rightarrow> Inl e
      | Inr x \<Rightarrow>
          (case as_Init x of
             None \<Rightarrow> Inl Undefined
           | Some (n, v) \<Rightarrow>
               (case cast is_Name s l of
                  Inl e \<Rightarrow> Inl e
                | Inr nm \<Rightarrow>
                    (case is_same s nm n of
                       Inl e \<Rightarrow> Inl e
                     | Inr True \<Rightarrow> cast is_Term s v
                     | Inr False \<Rightarrow> record_project_loop s l ts))))"

definition eval_record_project :: "state \<Rightarrow> ptr \<Rightarrow> ptr \<Rightarrow> ptr result" where
  "eval_record_project s l r =
     (case deref s r of
        Inl e \<Rightarrow> Inl e
      | Inr nd \<Rightarrow>
          (case as_Record (Some nd) of
             None \<Rightarrow> Inl Undefined
           | Some ms \<Rightarrow> record_project_loop s l ms))"

definition eval_table_project :: "ptr \<Rightarrow> ptr \<Rightarrow> ptr" where
  "eval_table_project project t = t"

text \<open>\<^verbatim>\<open>eval_proj\<close> has an empty body: control reaches the end of the function.\<close>

definition eval_proj :: "state \<Rightarrow> (ptr \<times> state) result" where
  "eval_proj s = Inl Undefined"

text \<open>
  \<^verbatim>\<open>eval_mem\<close> switches on the kind of the target as written (\<^verbatim>\<open>t->record()->kind\<close>,
  before evaluation). Neither case has a \<^verbatim>\<open>return\<close> or a \<^verbatim>\<open>break\<close>: the statement of
  \<^verbatim>\<open>case record_term\<close> is followed by the statement of \<^verbatim>\<open>case table_term\<close>, the
  values both compute are dropped, and control reaches the end of the function. The
  two arguments of each inner call are evaluated here in the order they are written.
\<close>

definition mem_record_case :: "evaluator \<Rightarrow> state \<Rightarrow> ptr \<Rightarrow> ptr \<Rightarrow> state result" where
  "mem_record_case ev s rcd mem =
     (case ev s mem of
        Inl e \<Rightarrow> Inl e
      | Inr (l, s1) \<Rightarrow>
          (case ev s1 rcd of
             Inl e \<Rightarrow> Inl e
           | Inr (rv, s2) \<Rightarrow>
               (case cast is_Record s2 rv of
                  Inl e \<Rightarrow> Inl e
                | Inr r \<Rightarrow>
                    (case eval_record_project s2 l r of
                       Inl e \<Rightarrow> Inl e
                     | Inr _ \<Rightarrow> Inr s2))))"

definition mem_table_case :: "evaluator \<Rightarrow> state \<Rightarrow> ptr \<Rightarrow> ptr \<Rightarrow> state result" where
  "mem_table_case ev s rcd mem =
     (case ev s mem of
        Inl e \<Rightarrow> Inl e
      | Inr (m, s1) \<Rightarrow>
          (case cast is_Comma s1 m of
             Inl e \<Rightarrow> Inl e
           | Inr project \<Rightarrow>
               (case ev s1 rcd of
                  Inl e \<Rightarrow> Inl e
                | Inr (rv, s2) \<Rightarrow>
                    (case cast is_Table s2 rv of
                       Inl e \<Rightarrow> Inl e
                     | Inr t \<Rightarrow> (case eval_table_project project t of _ \<Rightarrow> Inr s2)))))"

definition eval_mem :: "evaluator \<Rightarrow> state \<Rightarrow> ptr \<Rightarrow> ptr \<Rightarrow> (ptr \<times> state) result" where
  "eval_mem ev s rcd mem =
     (case deref s rcd of
        Inl e \<Rightarrow> Inl e
      | Inr nd \<Rightarrow>
          (case nd of
             record_term _ \<Rightarrow>
               (case mem_record_case ev s rcd mem of
                  Inl e \<Rightarrow> Inl e
                | Inr s1 \<Rightarrow>
                    (case mem_table_case ev s1 rcd mem of
                       Inl e \<Rightarrow> Inl e
                     | Inr s2 \<Rightarrow> Inl Undefined))
           | table_term _ _ \<Rightarrow>
               (case mem_table_case ev s rcd mem of
                  Inl e \<Rightarrow> Inl e
                | Inr s1 \<Rightarrow> Inl Undefined)
           | _ \<Rightarrow> Inl Undefined))"

text \<open>
  \<^verbatim>\<open>eval_table_select\<close>, \<^verbatim>\<open>eval_table_product\<close>, \<^verbatim>\<open>eval_select_from_where\<close> and
  \<^verbatim>\<open>eval_join\<close> have no \<^verbatim>\<open>return\<close> statement at all.
\<close>

definition eval_select_from_where :: "state \<Rightarrow> (ptr \<times> state) result" where
  "eval_select_from_where s = Inl Undefined"

definition eval_join :: "state \<Rightarrow> (ptr \<times> state) result" where
  "eval_join s = Inl Undefined"

text \<open>
  \<^verbatim>\<open>eval_intersect_table\<close>: \<^verbatim>\<open>Table* result;\<close> is never initialised. A match appends
  through it; with no match at all the uninitialised pointer is returned. \<open>m1\<close> and
  \<open>m2\<close> are the member sequences of the two tables.
\<close>

fun intersect_inner :: "state \<Rightarrow> ptr \<Rightarrow> ptr list \<Rightarrow> unit result" where
  "intersect_inner s r1 [] = Inr ()"
| "intersect_inner s r1 (r2 # rest) =
     (case is_same s r1 r2 of
        Inl e \<Rightarrow> Inl e
      | Inr True \<Rightarrow> Inl Undefined
      | Inr False \<Rightarrow> intersect_inner s r1 rest)"

fun intersect_outer :: "state \<Rightarrow> ptr list \<Rightarrow> ptr list \<Rightarrow> unit result" where
  "intersect_outer s [] m2 = Inr ()"
| "intersect_outer s (r1 # rest) m2 =
     (case intersect_inner s r1 m2 of
        Inl e \<Rightarrow> Inl e
      | Inr _ \<Rightarrow> intersect_outer s rest m2)"

definition members_of :: "state \<Rightarrow> ptr \<Rightarrow> ptr list result" where
  "members_of s t =
     (case deref s t of
        Inl e \<Rightarrow> Inl e
      | Inr nd \<Rightarrow> (case as_Table (Some nd) of None \<Rightarrow> Inl Undefined | Some (sc, ms) \<Rightarrow> Inr ms))"

definition schema_of :: "state \<Rightarrow> ptr \<Rightarrow> ptr list result" where
  "schema_of s t =
     (case deref s t of
        Inl e \<Rightarrow> Inl e
      | Inr nd \<Rightarrow> (case as_Table (Some nd) of None \<Rightarrow> Inl Undefined | Some (sc, ms) \<Rightarrow> Inr sc))"

definition eval_intersect_table :: "state \<Rightarrow> ptr \<Rightarrow> ptr \<Rightarrow> (ptr \<times> state) result" where
  "eval_intersect_table s t1 t2 =
     (case members_of s t1 of
        Inl e \<Rightarrow> Inl e
      | Inr m1 \<Rightarrow>
          if m1 = [] then Inl Undefined
          else
            (case members_of s t2 of
               Inl e \<Rightarrow> Inl e
             | Inr m2 \<Rightarrow>
                 (case intersect_outer s m1 m2 of
                    Inl e \<Rightarrow> Inl e
                  | Inr _ \<Rightarrow> Inl Undefined)))"

text \<open>
  The table operators evaluate both operands and switch on the kind of the first
  result; the switch has one case, and for any other kind control reaches the end of
  the function.
\<close>

definition eval_intersect :: "evaluator \<Rightarrow> state \<Rightarrow> ptr \<Rightarrow> ptr \<Rightarrow> (ptr \<times> state) result" where
  "eval_intersect ev s a b =
     (case ev s a of
        Inl e \<Rightarrow> Inl e
      | Inr (t1, s1) \<Rightarrow>
          (case ev s1 b of
             Inl e \<Rightarrow> Inl e
           | Inr (t2, s2) \<Rightarrow>
               (case deref s2 t1 of
                  Inl e \<Rightarrow> Inl e
                | Inr nd \<Rightarrow>
                    if is_Table nd then
                      (case cast is_Table s2 t2 of
                         Inl e \<Rightarrow> Inl e
                       | Inr t2' \<Rightarrow> eval_intersect_table s2 t1 t2')
                    else Inl Undefined)))"

text \<open>
  \<^verbatim>\<open>eval_union_table\<close> copies the schema and the members of \<open>t1\<close>, appends the members
  of \<open>t2\<close> and removes duplicates through a \<^verbatim>\<open>std::set<Term*>\<close>: a set of pointers,
  which keeps one copy of each pointer and hands them back in the order of their
  machine addresses.
\<close>

definition eval_union_table :: "state \<Rightarrow> ptr \<Rightarrow> ptr \<Rightarrow> (ptr \<times> state) result" where
  "eval_union_table s t1 t2 =
     (case schema_of s t1 of
        Inl e \<Rightarrow> Inl e
      | Inr schema \<Rightarrow>
          (case members_of s t1 of
             Inl e \<Rightarrow> Inl e
           | Inr m1 \<Rightarrow>
               (case members_of s t2 of
                  Inl e \<Rightarrow> Inl e
                | Inr m2 \<Rightarrow>
                    Inr (new_node
                      (table_term schema (sort_key (ptr_address s) (remdups (m1 @ m2)))) s))))"

definition eval_union :: "evaluator \<Rightarrow> state \<Rightarrow> ptr \<Rightarrow> ptr \<Rightarrow> (ptr \<times> state) result" where
  "eval_union ev s a b =
     (case ev s a of
        Inl e \<Rightarrow> Inl e
      | Inr (t1, s1) \<Rightarrow>
          (case ev s1 b of
             Inl e \<Rightarrow> Inl e
           | Inr (t2, s2) \<Rightarrow>
               (case deref s2 t1 of
                  Inl e \<Rightarrow> Inl e
                | Inr nd \<Rightarrow>
                    if is_Table nd then
                      (case cast is_Table s2 t2 of
                         Inl e \<Rightarrow> Inl e
                       | Inr t2' \<Rightarrow> eval_union_table s2 t1 t2')
                    else Inl Undefined)))"

text \<open>
  \<^verbatim>\<open>eval_except_table\<close>: \<^verbatim>\<open>Term_seq* diff;\<close> is never initialised. A record of \<open>t1\<close>
  that \<open>t2\<close> lacks is appended through it; when every record of \<open>t1\<close> is in \<open>t2\<close> the
  uninitialised pointer is read to build the result table.
\<close>

fun r2_contains :: "state \<Rightarrow> ptr \<Rightarrow> bool \<Rightarrow> ptr list \<Rightarrow> bool result" where
  "r2_contains s r1 acc [] = Inr acc"
| "r2_contains s r1 acc (r2 # rest) =
     (case is_same s r1 r2 of
        Inl e \<Rightarrow> Inl e
      | Inr True \<Rightarrow> r2_contains s r1 True rest
      | Inr False \<Rightarrow> r2_contains s r1 acc rest)"

fun except_outer :: "state \<Rightarrow> ptr list \<Rightarrow> ptr list \<Rightarrow> unit result" where
  "except_outer s [] m2 = Inr ()"
| "except_outer s (r1 # rest) m2 =
     (case r2_contains s r1 False m2 of
        Inl e \<Rightarrow> Inl e
      | Inr False \<Rightarrow> Inl Undefined
      | Inr True \<Rightarrow> except_outer s rest m2)"

definition eval_except_table :: "state \<Rightarrow> ptr \<Rightarrow> ptr \<Rightarrow> (ptr \<times> state) result" where
  "eval_except_table s t1 t2 =
     (case schema_of s t1 of
        Inl e \<Rightarrow> Inl e
      | Inr schema \<Rightarrow>
          (case members_of s t1 of
             Inl e \<Rightarrow> Inl e
           | Inr m1 \<Rightarrow>
               if m1 = [] then Inl Undefined
               else
                 (case members_of s t2 of
                    Inl e \<Rightarrow> Inl e
                  | Inr m2 \<Rightarrow>
                      (case except_outer s m1 m2 of
                         Inl e \<Rightarrow> Inl e
                       | Inr _ \<Rightarrow> Inl Undefined))))"

definition eval_except :: "evaluator \<Rightarrow> state \<Rightarrow> ptr \<Rightarrow> ptr \<Rightarrow> (ptr \<times> state) result" where
  "eval_except ev s a b =
     (case ev s a of
        Inl e \<Rightarrow> Inl e
      | Inr (t1, s1) \<Rightarrow>
          (case ev s1 b of
             Inl e \<Rightarrow> Inl e
           | Inr (t2, s2) \<Rightarrow>
               (case deref s2 t1 of
                  Inl e \<Rightarrow> Inl e
                | Inr nd \<Rightarrow>
                    if is_Table nd then
                      (case cast is_Table s2 t2 of
                         Inl e \<Rightarrow> Inl e
                       | Inr t2' \<Rightarrow> eval_except_table s2 t1 t2')
                    else Inl Undefined)))"

subsection \<open>The dispatcher\<close>

text \<open>
  \<^verbatim>\<open>eval\<close> switches on the kind tag of \<open>t\<close> and returns \<open>t\<close> itself for every kind the
  switch does not list. The first argument bounds the depth of the recursion through
  \<^verbatim>\<open>eval\<close>: a run that needs more ends in \<open>Diverged\<close>.
\<close>

primrec eval :: "nat \<Rightarrow> state \<Rightarrow> ptr \<Rightarrow> (ptr \<times> state) result" where
  "eval 0 s t = Inl Diverged"
| "eval (Suc n) s t =
     (case t of
        None \<Rightarrow> Inl Undefined
      | Some a \<Rightarrow>
          if \<not> a < length (heap s) then Inl Undefined
          else
            (case heap s ! a of
               if_term c t2 t3 \<Rightarrow> eval_if (eval n) s c t2 t3
             | and_term t1 t2 \<Rightarrow> eval_and (eval n) s t1 t2
             | or_term t1 t2 \<Rightarrow> eval_or (eval n) s t1 t2
             | not_term t1 \<Rightarrow> eval_not (eval n) s t1
             | equals_term t1 t2 \<Rightarrow> eval_equals (eval n) s t1 t2
             | less_term t1 t2 \<Rightarrow> eval_less (eval n) s t1 t2
             | succ_term arg \<Rightarrow> eval_succ (eval n) s arg
             | pred_term arg \<Rightarrow> eval_pred (eval n) s arg
             | iszero_term arg \<Rightarrow> eval_iszero (eval n) s arg
             | app_term f arg \<Rightarrow> eval_app (eval n) s f arg
             | call_term f args \<Rightarrow> eval_call (eval n) s a f
             | ref_term d \<Rightarrow> eval_ref s t d
             | print_term e \<Rightarrow> eval_print (eval n) s e
             | def_term nm v \<Rightarrow> eval_def (eval n) s a v
             | prog_term stmts \<Rightarrow> eval_prog (eval n) s stmts
             | comma_term items \<Rightarrow> eval_comma s
             | proj_term t1 t2 \<Rightarrow> eval_proj s
             | mem_term rcd mem \<Rightarrow> eval_mem (eval n) s rcd mem
             | select_term t1 t2 t3 \<Rightarrow> eval_select_from_where s
             | join_on_term t1 t2 t3 t4 \<Rightarrow> eval_join s
             | union_term t1 t2 \<Rightarrow> eval_union (eval n) s t1 t2
             | inter_term t1 t2 \<Rightarrow> eval_intersect (eval n) s t1 t2
             | except_term t1 t2 \<Rightarrow> eval_except (eval n) s t1 t2
             | _ \<Rightarrow> Inr (t, s)))"

text \<open>
  \<^verbatim>\<open>step\<close>, the one-step evaluation, is \<^verbatim>\<open>lang_unreachable("not implemented")\<close>.
\<close>

definition step :: "state \<Rightarrow> ptr \<Rightarrow> (ptr \<times> state) result" where
  "step s t = Inl Fatal"

section \<open>Observations and example stores\<close>

text \<open>
  \<open>eval_node\<close> evaluates a term and reads the node its result points to, in the store
  the evaluation leaves behind.
\<close>

definition eval_node :: "nat \<Rightarrow> state \<Rightarrow> ptr \<Rightarrow> node result" where
  "eval_node k s t = (case eval k s t of Inl e \<Rightarrow> Inl e | Inr (v, s') \<Rightarrow> deref s' v)"

text \<open>
  The example stores below place the node of index \<open>a\<close> at the address \<open>a\<close>.
\<close>

text \<open>
  A store with the terms \<^verbatim>\<open>pred (succ 7)\<close>, \<^verbatim>\<open>iszero (succ 7)\<close>, \<^verbatim>\<open>pred 0\<close> and
  \<^verbatim>\<open>iszero 0\<close>.
\<close>

definition nat_state :: state where
  "nat_state =
     \<lparr>heap = [int_term 7, succ_term (Some 0), pred_term (Some 1), iszero_term (Some 1),
              int_term 0, pred_term (Some 4), iszero_term (Some 4)],
      cout = [], address = (\<lambda>a. a)\<rparr>"

text \<open>The term \<^verbatim>\<open>not 0\<close>.\<close>

definition not_state :: state where
  "not_state = \<lparr>heap = [int_term 0, not_term (Some 0)], cout = [], address = (\<lambda>a. a)\<rparr>"

text \<open>A program with no statement.\<close>

definition prog_state :: state where
  "prog_state = \<lparr>heap = [prog_term []], cout = [], address = (\<lambda>a. a)\<rparr>"

text \<open>The term \<^verbatim>\<open>1 < 2\<close>, nothing written yet.\<close>

definition less_state :: state where
  "less_state = \<lparr>heap = [int_term 1, int_term 2, less_term (Some 0) (Some 1)], cout = [], address = (\<lambda>a. a)\<rparr>"

text \<open>The record \<^verbatim>\<open>{a = 1}\<close> at index 3 and the access \<^verbatim>\<open>{a = 1}.a\<close> at index 5.\<close>

definition mem_state :: state where
  "mem_state =
     \<lparr>heap = [name_term ''a'', int_term 1, init_term (Some 0) (Some 1), record_term [Some 2],
              name_term ''a'', mem_term (Some 3) (Some 4)],
      cout = [], address = (\<lambda>a. a)\<rparr>"

text \<open>
  Two tables over the schema \<^verbatim>\<open>[a]\<close>, at indices 7 and 8, each with the one record
  \<^verbatim>\<open>{a = 1}\<close>: the two records are separate nodes (indices 3 and 6) with equal
  content. Addresses 9, 10 and 11 hold the union of the two tables, and the
  intersection and the difference of the first table with itself.
\<close>

definition set_state :: state where
  "set_state =
     \<lparr>heap = [name_term ''a'',
              int_term 1, init_term (Some 0) (Some 1), record_term [Some 2],
              int_term 1, init_term (Some 0) (Some 4), record_term [Some 5],
              table_term [Some 0] [Some 3], table_term [Some 0] [Some 6],
              union_term (Some 7) (Some 8), inter_term (Some 7) (Some 7),
              except_term (Some 7) (Some 7)],
      cout = [], address = (\<lambda>a. a)\<rparr>"

text \<open>
  What an evaluation may do to a node that exists already: the value of a \<^verbatim>\<open>Def\<close>
  and the entries of the argument sequence of a \<^verbatim>\<open>Call\<close> may be overwritten; the name
  of the \<^verbatim>\<open>Def\<close>, the target of the \<^verbatim>\<open>Call\<close> and the number of its arguments stay,
  and a node of any other kind stays as it is. \<open>frame s s'\<close> says that every node of
  the store \<open>s\<close> is still there in \<open>s'\<close>, changed at most in this way.
\<close>

definition node_kept :: "node \<Rightarrow> node \<Rightarrow> bool" where
  "node_kept nd nd' =
     (case nd of
        def_term n v \<Rightarrow> (case nd' of def_term n' v' \<Rightarrow> n' = n | _ \<Rightarrow> False)
      | call_term f xs \<Rightarrow>
          (case nd' of call_term f' xs' \<Rightarrow> f' = f \<and> length xs' = length xs | _ \<Rightarrow> False)
      | _ \<Rightarrow> nd' = nd)"

definition frame :: "state \<Rightarrow> state \<Rightarrow> bool" where
  "frame s s' =
     (length (heap s) \<le> length (heap s') \<and>
      list_all2 node_kept (heap s) (take (length (heap s)) (heap s')))"

text \<open>
  The normal forms the spec lists: true, false, integers, unit, abstractions,
  functions, tables and records.
\<close>

definition is_value :: "node \<Rightarrow> bool" where
  "is_value nd =
     (case nd of
        true_term \<Rightarrow> True
      | false_term \<Rightarrow> True
      | int_term _ \<Rightarrow> True
      | unit_term \<Rightarrow> True
      | abs_term _ _ \<Rightarrow> True
      | fn_term _ _ \<Rightarrow> True
      | table_term _ _ \<Rightarrow> True
      | record_term _ \<Rightarrow> True
      | _ \<Rightarrow> False)"

text \<open>
  A declaration \<^verbatim>\<open>n = succ 0\<close> at index 3 whose value has not been evaluated, and
  two references to it at indices 4 and 5.
\<close>

definition memo_state :: state where
  "memo_state =
     \<lparr>heap = [int_term 0, succ_term (Some 0), name_term ''n'', def_term (Some 2) (Some 1),
              ref_term (Some 3), ref_term (Some 3)],
      cout = [], address = (\<lambda>a. a)\<rparr>"

text \<open>The same store after the declaration has been evaluated.\<close>

definition memo_done :: state where
  "memo_done =
     \<lparr>heap = [int_term 0, succ_term (Some 0), name_term ''n'', def_term (Some 2) (Some 6),
              ref_term (Some 3), ref_term (Some 3), int_term 1],
      cout = [], address = (\<lambda>a. a)\<rparr>"

text \<open>
  The function \<^verbatim>\<open>fn (x) x\<close> at index 3 and the call \<^verbatim>\<open>(fn (x) x)(succ 0)\<close> at
  index 6.
\<close>

definition call_state :: state where
  "call_state =
     \<lparr>heap = [name_term ''x'', var_term (Some 0) None, ref_term (Some 1),
              fn_term [Some 1] (Some 2), int_term 0, succ_term (Some 4),
              call_term (Some 3) [Some 5]],
      cout = [], address = (\<lambda>a. a)\<rparr>"

text \<open>The same store after the call has been evaluated.\<close>

definition call_done :: state where
  "call_done =
     \<lparr>heap = [name_term ''x'', var_term (Some 0) None, ref_term (Some 1),
              fn_term [Some 1] (Some 2), int_term 0, succ_term (Some 4),
              call_term (Some 3) [Some 7], int_term 1],
      cout = [], address = (\<lambda>a. a)\<rparr>"







text \<open>
  The kinds the switch of \<^verbatim>\<open>eval\<close> does not list: a term of such a kind is returned
  as it is.
\<close>

definition not_dispatched :: "node \<Rightarrow> bool" where
  "not_dispatched nd =
     (case nd of
        true_term \<Rightarrow> True
      | false_term \<Rightarrow> True
      | int_term _ \<Rightarrow> True
      | unit_term \<Rightarrow> True
      | name_term _ \<Rightarrow> True
      | type_expr _ \<Rightarrow> True
      | var_term _ _ \<Rightarrow> True
      | abs_term _ _ \<Rightarrow> True
      | fn_term _ _ \<Rightarrow> True
      | init_term _ _ \<Rightarrow> True
      | record_term _ \<Rightarrow> True
      | table_term _ _ \<Rightarrow> True
      | _ \<Rightarrow> False)"

text \<open>
  A pointer is irreducible in a store when it points to a node of a kind the switch
  does not list, or to a \<^verbatim>\<open>Ref\<close> whose target is not a \<^verbatim>\<open>Def\<close> (a reference to a
  variable or a parameter, which \<^verbatim>\<open>eval_ref\<close> returns as it is).
\<close>

definition irreducible :: "state \<Rightarrow> ptr \<Rightarrow> bool" where
  "irreducible s v =
     (case v of
        None \<Rightarrow> False
      | Some a \<Rightarrow>
          a < length (heap s) \<and>
          (case heap s ! a of
             ref_term d \<Rightarrow> (case look s d of Inl e \<Rightarrow> False | Inr x \<Rightarrow> as_Def x = None)
           | nd \<Rightarrow> not_dispatched nd))"

text \<open>
  A pointer is reducible when it points to a term that is not irreducible: a term
  that a further evaluation takes apart.
\<close>

definition reducible :: "state \<Rightarrow> ptr \<Rightarrow> bool" where
  "reducible s x =
     (case look s x of
        Inr (Some nd) \<Rightarrow> is_Term nd \<and> \<not> irreducible s x
      | _ \<Rightarrow> False)"

text \<open>\<open>stored s v\<close>: some \<^verbatim>\<open>Def\<close> of the store holds the pointer \<open>v\<close> as its value.\<close>

definition stored :: "state \<Rightarrow> ptr \<Rightarrow> bool" where
  "stored s v = list_ex (\<lambda>nd. case nd of def_term nm x \<Rightarrow> x = v | _ \<Rightarrow> False) (heap s)"

text \<open>
  The results for which a second evaluation is not the identity: the null pointer
  (\<^verbatim>\<open>eval_ref\<close> on a reference to a type declaration), a \<^verbatim>\<open>Def\<close> whose stored value
  is a reducible term, and a reducible term that is the stored value of a \<^verbatim>\<open>Def\<close>
  (\<^verbatim>\<open>eval_ref\<close> on a reference to a declaration not yet evaluated).
\<close>

definition excluded :: "state \<Rightarrow> ptr \<Rightarrow> bool" where
  "excluded s v =
     (v = None \<or>
      (case look s v of
         Inr (Some (def_term nm x)) \<Rightarrow> reducible s x
       | _ \<Rightarrow> False) \<or>
      (reducible s v \<and> stored s v))"

text \<open>
  The shapes a result of \<^verbatim>\<open>eval\<close> can have: the null pointer; an irreducible
  pointer; a \<^verbatim>\<open>Def\<close> whose value is null or a node of the store; a term that is the
  stored value of a \<^verbatim>\<open>Def\<close>.
\<close>

definition def_result :: "state \<Rightarrow> ptr \<Rightarrow> bool" where
  "def_result s v =
     (case v of
        None \<Rightarrow> False
      | Some a \<Rightarrow>
          a < length (heap s) \<and>
          (case heap s ! a of
             def_term nm x \<Rightarrow> (case x of None \<Rightarrow> True | Some b \<Rightarrow> b < length (heap s))
           | _ \<Rightarrow> False))"

definition stored_result :: "state \<Rightarrow> ptr \<Rightarrow> bool" where
  "stored_result s v =
     (case v of
        None \<Rightarrow> False
      | Some b \<Rightarrow> b < length (heap s) \<and> is_Term (heap s ! b) \<and> stored s v)"

definition result_form :: "state \<Rightarrow> ptr \<Rightarrow> bool" where
  "result_form s v = (v = None \<or> irreducible s v \<or> def_result s v \<or> stored_result s v)"

text \<open>
  A declaration of the type \<^verbatim>\<open>T = Nat\<close> at index 2 and a reference to it at index 3;
  the declaration \<^verbatim>\<open>n = succ true\<close> at index 7, not yet evaluated, a reference to it
  at index 8 and the declaration \<^verbatim>\<open>m = n\<close> at index 10; a variable \<open>x\<close> at index 12 and
  a reference to it at index 13.
\<close>

definition idem_state :: state where
  "idem_state =
     \<lparr>heap = [type_expr ''Nat'', name_term ''T'', def_term (Some 1) (Some 0), ref_term (Some 2),
              true_term, succ_term (Some 4), name_term ''n'', def_term (Some 6) (Some 5),
              ref_term (Some 7), name_term ''m'', def_term (Some 9) (Some 8),
              name_term ''x'', var_term (Some 11) None, ref_term (Some 12)],
      cout = [], address = (\<lambda>a. a)\<rparr>"

text \<open>The same store after the declaration of \<open>m\<close> has been evaluated once.\<close>

definition idem_done :: state where
  "idem_done =
     \<lparr>heap = [type_expr ''Nat'', name_term ''T'', def_term (Some 1) (Some 0), ref_term (Some 2),
              true_term, succ_term (Some 4), name_term ''n'', def_term (Some 6) (Some 5),
              ref_term (Some 7), name_term ''m'', def_term (Some 9) (Some 5),
              name_term ''x'', var_term (Some 11) None, ref_term (Some 12)],
      cout = [], address = (\<lambda>a. a)\<rparr>"

section \<open>Reading and allocating\<close>

lemma deref_Inr:
  "deref s t = Inr nd \<longleftrightarrow> (\<exists>a. t = Some a \<and> a < length (heap s) \<and> heap s ! a = nd)"
  by (auto simp: deref_def look_def split: option.splits if_splits)

lemma look_deref: "deref s t = Inr nd \<Longrightarrow> look s t = Inr (Some nd)"
  by (auto simp: deref_def split: sum.splits option.splits)

lemma deref_new_node: "new_node nd s = (v, s') \<Longrightarrow> deref s' v = Inr nd"
  by (auto simp: new_node_def deref_def look_def)

lemma eval_int: "deref s t = Inr (int_term n) \<Longrightarrow> eval (Suc k) s t = Inr (t, s)"
  by (auto simp: deref_Inr)

lemma eval_succ_int:
  assumes "deref s t = Inr (succ_term b)" and "deref s b = Inr (int_term n)"
  shows "eval (Suc (Suc k)) s t = Inr (new_node (int_term (n + 1)) s)"
proof -
  from assms(1) obtain a where a: "t = Some a" "a < length (heap s)" "heap s ! a = succ_term b"
    by (auto simp: deref_Inr)
  have "eval (Suc k) s b = Inr (b, s)" using assms(2) by (rule eval_int)
  then show ?thesis using a assms(2)
    by (simp add: eval_succ_def look_deref as_Int_def)
qed

lemmas access_defs = look_def deref_def cast_def new_node_def cout_write_def
  is_true_def is_false_def get_true_def get_false_def get_unit_def
  as_Int_def as_Abs_def as_Fn_def as_Def_def as_Init_def as_Record_def as_Table_def
  is_Term_def is_Name_def is_Record_def is_Table_def is_Comma_def

lemmas eval_defs = eval_if_def eval_succ_def eval_pred_def eval_iszero_def eval_app_def
  eval_call_def eval_ref_def eval_def_def eval_print_def eval_comma_def eval_prog_def
  eval_and_def eval_or_def eval_not_def eval_equals_def eval_less_def
  args_of_def store_arg_def set_arg_def set_t2_def Subst_seq_def Subst_var_def subst_term_def
  children_def rebuild_def

section \<open>Operators that never return\<close>

text \<open>
  Whatever the operands are, \<^verbatim>\<open>eval_mem\<close>, \<^verbatim>\<open>eval_intersect_table\<close> and
  \<^verbatim>\<open>eval_except_table\<close> have no path that returns a value.
\<close>

lemma eval_mem_never_returns: "\<exists>e. eval_mem ev s rcd mem = Inl e"
  by (simp add: eval_mem_def split: sum.splits node.splits)

lemma eval_intersect_table_never_returns: "\<exists>e. eval_intersect_table s t1 t2 = Inl e"
  by (simp add: eval_intersect_table_def split: sum.splits)

lemma eval_except_table_never_returns: "\<exists>e. eval_except_table s t1 t2 = Inl e"
  by (simp add: eval_except_table_def split: sum.splits)

section \<open>Which nodes an evaluation overwrites\<close>

lemma node_kept_refl: "node_kept nd nd"
  by (simp add: node_kept_def split: node.splits)

lemma node_kept_trans: "node_kept a b \<Longrightarrow> node_kept b c \<Longrightarrow> node_kept a c"
  by (auto simp: node_kept_def split: node.splits)

lemma frame_nth:
  "frame s s' \<longleftrightarrow>
     length (heap s) \<le> length (heap s') \<and>
     (\<forall>a < length (heap s). node_kept (heap s ! a) (heap s' ! a))"
  by (auto simp: frame_def list_all2_conv_all_nth)

lemma frame_refl: "frame s s"
  by (simp add: frame_nth node_kept_refl)

lemma frame_trans: "frame s s1 \<Longrightarrow> frame s1 s2 \<Longrightarrow> frame s s2"
  unfolding frame_nth
  by (meson node_kept_trans order_trans less_le_trans)

lemma frame_new_node: "frame s (snd (new_node nd s))"
  by (simp add: frame_nth new_node_def nth_append node_kept_refl)

lemma frame_new_node': "new_node nd s = (v, s') \<Longrightarrow> frame s s'"
  using frame_new_node[of s nd] by simp

lemma frame_cout_write: "frame s (cout_write txt s)"
  by (simp add: frame_nth cout_write_def node_kept_refl)

lemma node_kept_set_t2: "node_kept nd (set_t2 nd r)"
  by (simp add: node_kept_def set_t2_def split: node.splits)

lemma node_kept_set_arg: "node_kept nd (set_arg nd i v)"
  by (simp add: node_kept_def set_arg_def split: node.splits)

lemma frame_update:
  assumes "node_kept (heap s ! a) nd'"
  shows "frame s (s\<lparr>heap := (heap s)[a := nd']\<rparr>)"
  using assms
  by (cases "a < length (heap s)")
    (auto simp: frame_nth nth_list_update node_kept_refl list_update_beyond)

lemma frame_store_arg: "frame s (store_arg s c i v)"
  unfolding store_arg_def by (rule frame_update) (rule node_kept_set_arg)

lemma frame_set_t2: "frame s (s\<lparr>heap := (heap s)[a := set_t2 (heap s ! a) r]\<rparr>)"
  by (rule frame_update) (rule node_kept_set_t2)

lemma subst_seq_frame:
  assumes f: "\<And>s t v s'. f s t = Inr (v, s') \<Longrightarrow> frame s s'"
  shows "subst_seq f s ts = Inr (ts', s') \<Longrightarrow> frame s s'"
proof (induction ts arbitrary: s ts' s')
  case Nil
  then show ?case by (simp add: frame_refl)
next
  case (Cons t ts)
  then show ?case
    by (auto split: sum.splits prod.splits dest!: f intro: frame_trans)
qed

lemma subst_upto_frame: "subst_upto k sub s t = Inr (v, s') \<Longrightarrow> frame s s'"
proof (induction k arbitrary: s t v s')
  case 0
  then show ?case by simp
next
  case (Suc k)
  have seq: "\<And>s ts ts' s'. subst_seq (subst_upto k sub) s ts = Inr (ts', s') \<Longrightarrow> frame s s'"
    using Suc.IH by (rule subst_seq_frame)
  from Suc.prems show ?case
    by (auto simp: frame_refl split: sum.splits option.splits node.splits if_splits prod.splits
        dest!: seq frame_new_node' intro: frame_trans)
qed

lemma subst_term_frame: "subst_term s t sub = Inr (v, s') \<Longrightarrow> frame s s'"
  unfolding subst_term_def by (rule subst_upto_frame)

lemma eval_union_table_frame: "eval_union_table s t1 t2 = Inr (v, s') \<Longrightarrow> frame s s'"
  by (auto simp: eval_union_table_def split: sum.splits dest!: frame_new_node')

lemma eval_intersect_table_frame: "eval_intersect_table s t1 t2 = Inr (v, s') \<Longrightarrow> frame s s'"
  by (auto simp: eval_intersect_table_def split: sum.splits if_splits)

lemma eval_except_table_frame: "eval_except_table s t1 t2 = Inr (v, s') \<Longrightarrow> frame s s'"
  by (auto simp: eval_except_table_def split: sum.splits if_splits)

lemma frame_cout_write_trans: "frame s s1 \<Longrightarrow> frame s (cout_write txt s1)"
  by (erule frame_trans) (rule frame_cout_write)

lemma frame_new_node_trans: "frame s s1 \<Longrightarrow> new_node nd s1 = (v, s') \<Longrightarrow> frame s s'"
  by (erule frame_trans) (erule frame_new_node')

lemma frame_cout_write_left: "frame (cout_write txt s) s' = frame s s'"
  by (simp add: frame_def cout_write_def)

lemmas frame_defs = get_true_def get_false_def get_unit_def Let_def frame_cout_write_left

lemmas frame_results = frame_new_node' subst_term_frame eval_union_table_frame
  eval_intersect_table_frame eval_except_table_frame

lemma eval_if_frame:
  assumes ev: "\<And>s t v s'. ev s t = Inr (v, s') \<Longrightarrow> frame s s'"
    and res: "eval_if ev s c a b = Inr (v, s')"
  shows "frame s s'"
  using res
  by (auto simp: eval_if_def frame_defs split: sum.splits prod.splits bool.splits
      dest!: ev frame_results intro: frame_trans)

lemma eval_succ_frame:
  assumes ev: "\<And>s t v s'. ev s t = Inr (v, s') \<Longrightarrow> frame s s'"
    and res: "eval_succ ev s a = Inr (v, s')"
  shows "frame s s'"
  using res
  by (auto simp: eval_succ_def frame_defs split: sum.splits prod.splits option.splits if_splits
      dest!: ev frame_results intro: frame_trans)

lemma eval_pred_frame:
  assumes ev: "\<And>s t v s'. ev s t = Inr (v, s') \<Longrightarrow> frame s s'"
    and res: "eval_pred ev s a = Inr (v, s')"
  shows "frame s s'"
  using res
  by (auto simp: eval_pred_def frame_defs split: sum.splits prod.splits option.splits if_splits
      dest!: ev frame_results intro: frame_trans)

lemma eval_iszero_frame:
  assumes ev: "\<And>s t v s'. ev s t = Inr (v, s') \<Longrightarrow> frame s s'"
    and res: "eval_iszero ev s a = Inr (v, s')"
  shows "frame s s'"
  using res
  by (auto simp: eval_iszero_def frame_defs split: sum.splits prod.splits option.splits if_splits
      dest!: ev frame_results intro: frame_trans)

lemma eval_and_frame:
  assumes ev: "\<And>s t v s'. ev s t = Inr (v, s') \<Longrightarrow> frame s s'"
    and res: "eval_and ev s a b = Inr (v, s')"
  shows "frame s s'"
  using res
  by (auto simp: eval_and_def frame_defs split: sum.splits prod.splits bool.splits
      dest!: ev frame_results intro: frame_trans)

lemma eval_or_frame:
  assumes ev: "\<And>s t v s'. ev s t = Inr (v, s') \<Longrightarrow> frame s s'"
    and res: "eval_or ev s a b = Inr (v, s')"
  shows "frame s s'"
  using res
  by (auto simp: eval_or_def frame_defs split: sum.splits prod.splits bool.splits
      dest!: ev frame_results intro: frame_trans)

lemma eval_not_frame:
  assumes ev: "\<And>s t v s'. ev s t = Inr (v, s') \<Longrightarrow> frame s s'"
    and res: "eval_not ev s a = Inr (v, s')"
  shows "frame s s'"
  using res
  by (auto simp: eval_not_def frame_defs split: sum.splits prod.splits bool.splits
      dest!: ev frame_results intro: frame_trans)

lemma eval_equals_frame:
  assumes ev: "\<And>s t v s'. ev s t = Inr (v, s') \<Longrightarrow> frame s s'"
    and res: "eval_equals ev s a b = Inr (v, s')"
  shows "frame s s'"
  using res
  by (auto simp: eval_equals_def frame_defs split: sum.splits prod.splits bool.splits
      dest!: ev frame_results intro: frame_trans)

lemma eval_less_frame:
  assumes ev: "\<And>s t v s'. ev s t = Inr (v, s') \<Longrightarrow> frame s s'"
    and res: "eval_less ev s a b = Inr (v, s')"
  shows "frame s s'"
  using res
  by (auto simp: eval_less_def frame_defs split: sum.splits prod.splits bool.splits
      dest!: ev frame_results intro: frame_trans)

lemma eval_app_frame:
  assumes ev: "\<And>s t v s'. ev s t = Inr (v, s') \<Longrightarrow> frame s s'"
    and res: "eval_app ev s f a = Inr (v, s')"
  shows "frame s s'"
  using res
  by (auto simp: eval_app_def frame_defs split: sum.splits prod.splits option.splits
      dest!: ev frame_results intro: frame_trans)

lemma eval_print_frame:
  assumes ev: "\<And>s t v s'. ev s t = Inr (v, s') \<Longrightarrow> frame s s'"
    and res: "eval_print ev s e = Inr (v, s')"
  shows "frame s s'"
  using res
  by (auto simp: eval_print_def frame_defs split: sum.splits prod.splits option.splits if_splits
      dest!: ev frame_results intro: frame_trans)

lemma eval_union_frame:
  assumes ev: "\<And>s t v s'. ev s t = Inr (v, s') \<Longrightarrow> frame s s'"
    and res: "eval_union ev s a b = Inr (v, s')"
  shows "frame s s'"
  using res
  by (auto simp: eval_union_def frame_defs split: sum.splits prod.splits if_splits
      dest!: ev frame_results intro: frame_trans)

lemma eval_intersect_frame:
  assumes ev: "\<And>s t v s'. ev s t = Inr (v, s') \<Longrightarrow> frame s s'"
    and res: "eval_intersect ev s a b = Inr (v, s')"
  shows "frame s s'"
  using res
  by (auto simp: eval_intersect_def frame_defs split: sum.splits prod.splits if_splits
      dest!: ev frame_results intro: frame_trans)

lemma eval_except_frame:
  assumes ev: "\<And>s t v s'. ev s t = Inr (v, s') \<Longrightarrow> frame s s'"
    and res: "eval_except ev s a b = Inr (v, s')"
  shows "frame s s'"
  using res
  by (auto simp: eval_except_def frame_defs split: sum.splits prod.splits if_splits
      dest!: ev frame_results intro: frame_trans)

lemma eval_args_frame:
  assumes ev: "\<And>s t v s'. ev s t = Inr (v, s') \<Longrightarrow> frame s s'"
  shows "eval_args ev s c i n = Inr s' \<Longrightarrow> frame s s'"
proof (induction n arbitrary: s i)
  case 0
  then show ?case by (simp add: frame_refl)
next
  case (Suc n)
  from Suc.prems obtain v s1 where
    step: "ev s (args_of s c ! i) = Inr (v, s1)" and
    rest: "eval_args ev (store_arg s1 c i v) c (Suc i) n = Inr s'"
    by (auto split: if_splits sum.splits)
  have "frame s s1" using step by (rule ev)
  moreover have "frame s1 (store_arg s1 c i v)" by (rule frame_store_arg)
  moreover have "frame (store_arg s1 c i v) s'" using rest by (rule Suc.IH)
  ultimately show ?case by (blast intro: frame_trans)
qed

lemma eval_call_frame:
  assumes ev: "\<And>s t v s'. ev s t = Inr (v, s') \<Longrightarrow> frame s s'"
    and res: "eval_call ev s c f = Inr (v, s')"
  shows "frame s s'"
proof -
  from res obtain fn s0 s1 body sub res' s2 where
    f: "ev s f = Inr (fn, s0)" and
    args: "eval_args ev s0 c 0 (length (args_of s0 c)) = Inr s1" and
    sub: "subst_term s1 body sub = Inr (res', s2)" and
    body: "ev s2 res' = Inr (v, s')"
    by (auto simp: eval_call_def split: sum.splits prod.splits option.splits)
  have "frame s s0" using f by (rule ev)
  moreover have "frame s0 s1" using ev args by (rule eval_args_frame)
  moreover have "frame s1 s2" using sub by (rule subst_term_frame)
  moreover have "frame s2 s'" using body by (rule ev)
  ultimately show ?thesis by (blast intro: frame_trans)
qed

lemma eval_ref_frame: "eval_ref s t d = Inr (v, s') \<Longrightarrow> frame s s'"
  by (auto simp: eval_ref_def frame_refl split: sum.splits option.splits)

lemma eval_def_frame:
  assumes ev: "\<And>s t v s'. ev s t = Inr (v, s') \<Longrightarrow> frame s s'"
    and res: "eval_def ev s a x = Inr (v, s')"
  shows "frame s s'"
  using res
  by (auto simp: eval_def_def frame_refl split: sum.splits prod.splits option.splits
      dest!: ev intro: frame_trans frame_set_t2)

lemma prog_loop_frame:
  assumes ev: "\<And>s t v s'. ev s t = Inr (v, s') \<Longrightarrow> frame s s'"
  shows "prog_loop ev tn s stmts = Inr (r, s') \<Longrightarrow> frame s s'"
proof (induction stmts arbitrary: tn s)
  case Nil
  then show ?case by (simp add: frame_refl)
next
  case (Cons ti rest)
  then show ?case
    by (auto split: sum.splits prod.splits dest!: ev intro: frame_trans)
qed

lemma eval_prog_frame:
  assumes ev: "\<And>s t v s'. ev s t = Inr (v, s') \<Longrightarrow> frame s s'"
    and res: "eval_prog ev s stmts = Inr (v, s')"
  shows "frame s s'"
proof -
  from res have "prog_loop ev None s stmts = Inr (Some v, s')"
    by (auto simp: eval_prog_def split: sum.splits prod.splits option.splits)
  with ev show ?thesis by (rule prog_loop_frame)
qed

lemma eval_mem_frame: "eval_mem ev s rcd mem = Inr (v, s') \<Longrightarrow> frame s s'"
  using eval_mem_never_returns[of ev s rcd mem] by auto

lemma eval_frame: "eval k s t = Inr (v, s') \<Longrightarrow> frame s s'"
proof (induction k arbitrary: s t v s')
  case 0
  then show ?case by simp
next
  case (Suc k)
  note ev = Suc.IH
  from Suc.prems obtain a where a: "t = Some a" "a < length (heap s)"
    by (auto split: option.splits if_splits)
  show ?case
  proof (cases "heap s ! a")
    case (if_term c t2 t3)
    then show ?thesis using Suc.prems a by (auto intro: eval_if_frame[OF ev])
  next
    case (and_term t1 t2)
    then show ?thesis using Suc.prems a by (auto intro: eval_and_frame[OF ev])
  next
    case (or_term t1 t2)
    then show ?thesis using Suc.prems a by (auto intro: eval_or_frame[OF ev])
  next
    case (not_term t1)
    then show ?thesis using Suc.prems a by (auto intro: eval_not_frame[OF ev])
  next
    case (equals_term t1 t2)
    then show ?thesis using Suc.prems a by (auto intro: eval_equals_frame[OF ev])
  next
    case (less_term t1 t2)
    then show ?thesis using Suc.prems a by (auto intro: eval_less_frame[OF ev])
  next
    case (succ_term arg)
    then show ?thesis using Suc.prems a by (auto intro: eval_succ_frame[OF ev])
  next
    case (pred_term arg)
    then show ?thesis using Suc.prems a by (auto intro: eval_pred_frame[OF ev])
  next
    case (iszero_term arg)
    then show ?thesis using Suc.prems a by (auto intro: eval_iszero_frame[OF ev])
  next
    case (app_term f arg)
    then show ?thesis using Suc.prems a by (auto intro: eval_app_frame[OF ev])
  next
    case (call_term f args)
    then show ?thesis using Suc.prems a by (auto intro: eval_call_frame[OF ev])
  next
    case (ref_term d)
    then show ?thesis using Suc.prems a by (auto intro: eval_ref_frame)
  next
    case (print_term e)
    then show ?thesis using Suc.prems a by (auto intro: eval_print_frame[OF ev])
  next
    case (def_term nm x)
    then show ?thesis using Suc.prems a by (auto intro: eval_def_frame[OF ev])
  next
    case (prog_term stmts)
    then show ?thesis using Suc.prems a by (auto intro: eval_prog_frame[OF ev])
  next
    case (comma_term items)
    then show ?thesis using Suc.prems a
      by (auto simp: eval_comma_def get_unit_def dest: frame_new_node')
  next
    case (mem_term rcd mem)
    then show ?thesis using Suc.prems a by (auto intro: eval_mem_frame)
  next
    case (union_term t1 t2)
    then show ?thesis using Suc.prems a by (auto intro: eval_union_frame[OF ev])
  next
    case (inter_term t1 t2)
    then show ?thesis using Suc.prems a by (auto intro: eval_intersect_frame[OF ev])
  next
    case (except_term t1 t2)
    then show ?thesis using Suc.prems a by (auto intro: eval_except_frame[OF ev])
  qed (use Suc.prems a in \<open>auto simp: frame_refl eval_proj_def eval_select_from_where_def eval_join_def\<close>)
qed



lemma node_kept_def_term: "node_kept (def_term n v) nd' \<Longrightarrow> \<exists>v'. nd' = def_term n v'"
  by (auto simp: node_kept_def split: node.splits)

lemma frame_deref:
  assumes "frame s s'" and "deref s p = Inr nd"
  shows "\<exists>nd'. deref s' p = Inr nd' \<and> node_kept nd nd'"
  using assms by (fastforce simp: frame_nth deref_Inr)





section \<open>The loop over the arguments of a call\<close>


section \<open>The shape of a result\<close>

lemma irreducible_node:
  "a < length (heap s) \<Longrightarrow> not_dispatched (heap s ! a) \<Longrightarrow> irreducible s (Some a)"
  by (cases "heap s ! a") (simp_all add: irreducible_def not_dispatched_def)

lemma irreducible_eval: "irreducible s v \<Longrightarrow> eval (Suc j) s v = Inr (v, s)"
proof (cases v)
  case None
  then show "irreducible s v \<Longrightarrow> ?thesis" by (simp add: irreducible_def)
next
  case (Some a)
  assume i: "irreducible s v"
  then have a: "a < length (heap s)" using Some by (simp add: irreducible_def)
  show ?thesis
    by (cases "heap s ! a")
      (use i a Some in \<open>simp_all add: irreducible_def not_dispatched_def eval_ref_def
        split: sum.splits\<close>)
qed

lemma result_form_new_node:
  "new_node nd s = (v, s') \<Longrightarrow> not_dispatched nd \<Longrightarrow> result_form s' v"
  by (auto simp: new_node_def result_form_def intro!: irreducible_node)

lemma result_form_new_node':
  "not_dispatched nd \<Longrightarrow> result_form (snd (new_node nd s)) (fst (new_node nd s))"
  by (rule result_form_new_node[of nd s]) simp_all

lemma result_form_int:
  "look s v = Inr x \<Longrightarrow> as_Int x = Some z \<Longrightarrow> result_form s v"
  by (auto simp: look_def as_Int_def result_form_def not_dispatched_def
      split: option.splits if_splits node.splits intro!: irreducible_node)

lemma result_form_valid:
  "result_form s v \<Longrightarrow> v = None \<or> (\<exists>b. v = Some b \<and> b < length (heap s))"
  by (auto simp: result_form_def irreducible_def def_result_def stored_result_def
      split: option.splits)

lemma not_dispatched_simps:
  "not_dispatched true_term" "not_dispatched false_term" "not_dispatched unit_term"
  "not_dispatched (int_term z)" "not_dispatched (table_term sc ms)"
  by (simp_all add: not_dispatched_def)

lemmas result_form_defs = get_true_def get_false_def get_unit_def Let_def

lemma eval_union_table_result: "eval_union_table s t1 t2 = Inr (v, s') \<Longrightarrow> result_form s' v"
  by (auto simp: eval_union_table_def split: sum.splits
      intro: result_form_new_node not_dispatched_simps)

lemma eval_intersect_table_result:
  "eval_intersect_table s t1 t2 = Inr (v, s') \<Longrightarrow> result_form s' v"
  using eval_intersect_table_never_returns[of s t1 t2] by auto

lemma eval_except_table_result:
  "eval_except_table s t1 t2 = Inr (v, s') \<Longrightarrow> result_form s' v"
  using eval_except_table_never_returns[of s t1 t2] by auto

lemmas result_form_intros = result_form_new_node result_form_new_node' result_form_int
  not_dispatched_simps eval_union_table_result eval_intersect_table_result
  eval_except_table_result

lemma eval_if_result:
  assumes ev: "\<And>s t v s'. ev s t = Inr (v, s') \<Longrightarrow> result_form s' v"
    and res: "eval_if ev s c a b = Inr (v, s')"
  shows "result_form s' v"
  using res
  by (auto simp: eval_if_def result_form_defs split: sum.splits prod.splits bool.splits
      dest!: ev intro: result_form_intros)

lemma eval_succ_result:
  assumes ev: "\<And>s t v s'. ev s t = Inr (v, s') \<Longrightarrow> result_form s' v"
    and res: "eval_succ ev s a = Inr (v, s')"
  shows "result_form s' v"
  using res
  by (auto simp: eval_succ_def result_form_defs split: sum.splits prod.splits option.splits if_splits
      dest!: ev intro: result_form_intros)

lemma eval_pred_result:
  assumes ev: "\<And>s t v s'. ev s t = Inr (v, s') \<Longrightarrow> result_form s' v"
    and res: "eval_pred ev s a = Inr (v, s')"
  shows "result_form s' v"
  using res
  by (auto simp: eval_pred_def result_form_defs split: sum.splits prod.splits option.splits if_splits
      dest!: ev intro: result_form_intros)

lemma eval_iszero_result:
  assumes ev: "\<And>s t v s'. ev s t = Inr (v, s') \<Longrightarrow> result_form s' v"
    and res: "eval_iszero ev s a = Inr (v, s')"
  shows "result_form s' v"
  using res
  by (auto simp: eval_iszero_def result_form_defs split: sum.splits prod.splits option.splits if_splits
      dest!: ev intro: result_form_intros)

lemma eval_and_result:
  assumes ev: "\<And>s t v s'. ev s t = Inr (v, s') \<Longrightarrow> result_form s' v"
    and res: "eval_and ev s a b = Inr (v, s')"
  shows "result_form s' v"
  using res
  by (auto simp: eval_and_def result_form_defs split: sum.splits prod.splits bool.splits
      dest!: ev intro: result_form_intros)

lemma eval_or_result:
  assumes ev: "\<And>s t v s'. ev s t = Inr (v, s') \<Longrightarrow> result_form s' v"
    and res: "eval_or ev s a b = Inr (v, s')"
  shows "result_form s' v"
  using res
  by (auto simp: eval_or_def result_form_defs split: sum.splits prod.splits bool.splits
      dest!: ev intro: result_form_intros)

lemma eval_not_result:
  assumes ev: "\<And>s t v s'. ev s t = Inr (v, s') \<Longrightarrow> result_form s' v"
    and res: "eval_not ev s a = Inr (v, s')"
  shows "result_form s' v"
  using res
  by (auto simp: eval_not_def result_form_defs split: sum.splits prod.splits bool.splits
      dest!: ev intro: result_form_intros)

lemma eval_equals_result:
  assumes ev: "\<And>s t v s'. ev s t = Inr (v, s') \<Longrightarrow> result_form s' v"
    and res: "eval_equals ev s a b = Inr (v, s')"
  shows "result_form s' v"
  using res
  by (auto simp: eval_equals_def result_form_defs split: sum.splits prod.splits bool.splits
      dest!: ev intro: result_form_intros)

lemma eval_less_result:
  assumes ev: "\<And>s t v s'. ev s t = Inr (v, s') \<Longrightarrow> result_form s' v"
    and res: "eval_less ev s a b = Inr (v, s')"
  shows "result_form s' v"
  using res
  by (auto simp: eval_less_def result_form_defs split: sum.splits prod.splits bool.splits
      dest!: ev intro: result_form_intros)

lemma eval_app_result:
  assumes ev: "\<And>s t v s'. ev s t = Inr (v, s') \<Longrightarrow> result_form s' v"
    and res: "eval_app ev s f a = Inr (v, s')"
  shows "result_form s' v"
  using res
  by (auto simp: eval_app_def result_form_defs split: sum.splits prod.splits option.splits
      dest!: ev intro: result_form_intros)

lemma eval_print_result:
  assumes ev: "\<And>s t v s'. ev s t = Inr (v, s') \<Longrightarrow> result_form s' v"
    and res: "eval_print ev s e = Inr (v, s')"
  shows "result_form s' v"
  using res
  by (auto simp: eval_print_def result_form_defs split: sum.splits prod.splits option.splits if_splits
      dest!: ev intro: result_form_intros)

lemma eval_union_result:
  assumes ev: "\<And>s t v s'. ev s t = Inr (v, s') \<Longrightarrow> result_form s' v"
    and res: "eval_union ev s a b = Inr (v, s')"
  shows "result_form s' v"
  using res
  by (auto simp: eval_union_def result_form_defs split: sum.splits prod.splits if_splits
      dest!: ev intro: result_form_intros)

lemma eval_intersect_result:
  assumes ev: "\<And>s t v s'. ev s t = Inr (v, s') \<Longrightarrow> result_form s' v"
    and res: "eval_intersect ev s a b = Inr (v, s')"
  shows "result_form s' v"
  using res
  by (auto simp: eval_intersect_def result_form_defs split: sum.splits prod.splits if_splits
      dest!: ev intro: result_form_intros)

lemma eval_except_result:
  assumes ev: "\<And>s t v s'. ev s t = Inr (v, s') \<Longrightarrow> result_form s' v"
    and res: "eval_except ev s a b = Inr (v, s')"
  shows "result_form s' v"
  using res
  by (auto simp: eval_except_def result_form_defs split: sum.splits prod.splits if_splits
      dest!: ev intro: result_form_intros)

lemma eval_call_result:
  assumes ev: "\<And>s t v s'. ev s t = Inr (v, s') \<Longrightarrow> result_form s' v"
    and res: "eval_call ev s c f = Inr (v, s')"
  shows "result_form s' v"
  using res
  by (auto simp: eval_call_def split: sum.splits prod.splits option.splits dest!: ev)

lemma eval_ref_result:
  assumes a: "a < length (heap s)" "heap s ! a = ref_term d"
    and res: "eval_ref s (Some a) d = Inr (v, s')"
  shows "result_form s' v"
proof (cases "look s d")
  case (Inl e)
  then show ?thesis using res by (simp add: eval_ref_def)
next
  case (Inr x)
  show ?thesis
  proof (cases "as_Def x")
    case None
    then have "irreducible s (Some a)" using a Inr by (simp add: irreducible_def)
    then show ?thesis using res Inr None by (simp add: eval_ref_def result_form_def)
  next
    case (Some nv)
    obtain nm x' where nv: "nv = (nm, x')" by (cases nv)
    from Inr Some nv obtain b where b: "d = Some b" "b < length (heap s)"
      "heap s ! b = def_term nm x'"
      by (auto simp: look_def as_Def_def split: option.splits if_splits node.splits)
    then have st: "stored s x'"
      by (auto simp: stored_def list_ex_iff in_set_conv_nth intro!: bexI[of _ "heap s ! b"])
    show ?thesis using res Inr Some nv st
      by (auto simp: eval_ref_def cast_def look_def result_form_def stored_result_def
          split: sum.splits option.splits if_splits)
  qed
qed

lemma eval_def_result:
  assumes ev: "\<And>s t v s'. ev s t = Inr (v, s') \<Longrightarrow> result_form s' v"
    and fr: "\<And>s t v s'. ev s t = Inr (v, s') \<Longrightarrow> frame s s'"
    and a: "a < length (heap s)" "heap s ! a = def_term nm x"
    and res: "eval_def ev s a x = Inr (v, s')"
  shows "result_form s' v"
proof (cases "cast is_Term s x")
  case (Inl e)
  then show ?thesis using res by (simp add: eval_def_def)
next
  case (Inr c)
  show ?thesis
  proof (cases c)
    case None
    then have "v = Some a" "s' = s" using res Inr by (simp_all add: eval_def_def)
    moreover have "x = None \<or> (\<exists>b. x = Some b \<and> b < length (heap s))"
      using Inr by (auto simp: cast_def look_def split: option.splits if_splits)
    ultimately show ?thesis using a
      by (auto simp: result_form_def def_result_def)
  next
    case (Some t0)
    with res Inr obtain r s1 where
      e: "ev s (Some t0) = Inr (r, s1)" and
      v: "v = Some a" and
      s': "s' = s1\<lparr>heap := (heap s1)[a := set_t2 (heap s1 ! a) r]\<rparr>"
      by (auto simp: eval_def_def split: sum.splits prod.splits)
    have f: "frame s s1" using e by (rule fr)
    then have a1: "a < length (heap s1)" and "node_kept (heap s ! a) (heap s1 ! a)"
      using a by (auto simp: frame_nth)
    then obtain x1 where "heap s1 ! a = def_term nm x1"
      using a by (auto dest: node_kept_def_term)
    then have n: "heap s' ! a = def_term nm r" using s' a1 by (simp add: set_t2_def)
    have "r = None \<or> (\<exists>b. r = Some b \<and> b < length (heap s1))"
      using ev[OF e] by (rule result_form_valid)
    then show ?thesis using v n a1 s'
      by (auto simp: result_form_def def_result_def)
  qed
qed

lemma prog_loop_result:
  assumes ev: "\<And>s t v s'. ev s t = Inr (v, s') \<Longrightarrow> result_form s' v"
  shows "prog_loop ev tn s stmts = Inr (Some r, s') \<Longrightarrow>
    (case tn of None \<Rightarrow> True | Some r0 \<Rightarrow> result_form s r0) \<Longrightarrow> result_form s' r"
proof (induction stmts arbitrary: tn s)
  case Nil
  then show ?case by simp
next
  case (Cons ti rest)
  from Cons.prems(1) obtain r1 s1 where
    e: "ev s ti = Inr (r1, s1)" and l: "prog_loop ev (Some r1) s1 rest = Inr (Some r, s')"
    by (auto split: sum.splits prod.splits)
  show ?case using Cons.IH[OF l] ev[OF e] by simp
qed

lemma eval_prog_result:
  assumes ev: "\<And>s t v s'. ev s t = Inr (v, s') \<Longrightarrow> result_form s' v"
    and res: "eval_prog ev s stmts = Inr (v, s')"
  shows "result_form s' v"
proof -
  from res have "prog_loop ev None s stmts = Inr (Some v, s')"
    by (auto simp: eval_prog_def split: sum.splits prod.splits option.splits)
  then show ?thesis using prog_loop_result[OF ev] by fastforce
qed

lemma eval_mem_result: "eval_mem ev s rcd mem = Inr (v, s') \<Longrightarrow> result_form s' v"
  using eval_mem_never_returns[of ev s rcd mem] by auto

lemma eval_result_form: "eval k s t = Inr (v, s') \<Longrightarrow> result_form s' v"
proof (induction k arbitrary: s t v s')
  case 0
  then show ?case by simp
next
  case (Suc k)
  note ev = Suc.IH
  from Suc.prems obtain a where a: "t = Some a" "a < length (heap s)"
    by (auto split: option.splits if_splits)
  have same: "not_dispatched (heap s ! a) \<Longrightarrow> eval (Suc k) s t = Inr (t, s)"
    using a by (cases "heap s ! a") (simp_all add: not_dispatched_def)
  show ?case
  proof (cases "heap s ! a")
    case (if_term c t2 t3)
    then show ?thesis using Suc.prems a by (auto intro: eval_if_result[OF ev])
  next
    case (and_term t1 t2)
    then show ?thesis using Suc.prems a by (auto intro: eval_and_result[OF ev])
  next
    case (or_term t1 t2)
    then show ?thesis using Suc.prems a by (auto intro: eval_or_result[OF ev])
  next
    case (not_term t1)
    then show ?thesis using Suc.prems a by (auto intro: eval_not_result[OF ev])
  next
    case (equals_term t1 t2)
    then show ?thesis using Suc.prems a by (auto intro: eval_equals_result[OF ev])
  next
    case (less_term t1 t2)
    then show ?thesis using Suc.prems a by (auto intro: eval_less_result[OF ev])
  next
    case (succ_term arg)
    then show ?thesis using Suc.prems a by (auto intro: eval_succ_result[OF ev])
  next
    case (pred_term arg)
    then show ?thesis using Suc.prems a by (auto intro: eval_pred_result[OF ev])
  next
    case (iszero_term arg)
    then show ?thesis using Suc.prems a by (auto intro: eval_iszero_result[OF ev])
  next
    case (app_term f arg)
    then show ?thesis using Suc.prems a by (auto intro: eval_app_result[OF ev])
  next
    case (call_term f args)
    then show ?thesis using Suc.prems a by (auto intro: eval_call_result[OF ev])
  next
    case (print_term e)
    then show ?thesis using Suc.prems a by (auto intro: eval_print_result[OF ev])
  next
    case (prog_term stmts)
    then show ?thesis using Suc.prems a by (auto intro: eval_prog_result[OF ev])
  next
    case (mem_term rcd mem)
    then show ?thesis using Suc.prems a by (auto intro: eval_mem_result)
  next
    case (union_term t1 t2)
    then show ?thesis using Suc.prems a by (auto intro: eval_union_result[OF ev])
  next
    case (inter_term t1 t2)
    then show ?thesis using Suc.prems a by (auto intro: eval_intersect_result[OF ev])
  next
    case (except_term t1 t2)
    then show ?thesis using Suc.prems a by (auto intro: eval_except_result[OF ev])
  next
    case (ref_term d)
    then show ?thesis using Suc.prems a by (auto intro: eval_ref_result)
  next
    case (def_term nm x)
    then show ?thesis using Suc.prems a
      by (auto intro: eval_def_result[OF ev eval_frame])
  next
    case (comma_term items)
    then show ?thesis using Suc.prems a
      by (auto simp: eval_comma_def get_unit_def intro: result_form_intros)
  next
    case (proj_term t1 t2)
    then show ?thesis using Suc.prems a by (simp add: eval_proj_def)
  next
    case (select_term t1 t2 t3)
    then show ?thesis using Suc.prems a by (simp add: eval_select_from_where_def)
  next
    case (join_on_term t1 t2 t3 t4)
    then show ?thesis using Suc.prems a by (simp add: eval_join_def)
  qed (use Suc.prems a same in \<open>auto simp: not_dispatched_def result_form_def
        intro!: irreducible_node\<close>)
qed

section \<open>Evaluating a result again\<close>

lemma eval_def_again:
  assumes a: "a < length (heap s)" "heap s ! a = def_term nm x"
    and x: "x = None \<or> (\<exists>b. x = Some b \<and> b < length (heap s))"
    and r: "\<not> reducible s x"
  shows "eval (Suc (Suc j)) s (Some a) = Inr (Some a, s)"
proof (cases x)
  case None
  then show ?thesis using a by (simp add: eval_def_def cast_def look_def)
next
  case (Some b)
  then have b: "b < length (heap s)" using x by simp
  show ?thesis
  proof (cases "is_Term (heap s ! b)")
    case False
    then show ?thesis using a Some b by (simp add: eval_def_def cast_def look_def)
  next
    case True
    then have "irreducible s x" using r Some b by (simp add: reducible_def look_def)
    then have e: "eval (Suc j) s (Some b) = Inr (Some b, s)"
      using Some irreducible_eval by blast
    have "(heap s)[a := def_term nm (Some b)] = heap s"
      using a Some by (metis list_update_id)
    then have "s\<lparr>heap := (heap s)[a := def_term nm (Some b)]\<rparr> = s" by simp
    moreover have "eval (Suc (Suc j)) s (Some a) = eval_def (eval (Suc j)) s a x"
      using a by simp
    ultimately show ?thesis using a Some b True e
      by (simp add: eval_def_def cast_def look_def set_t2_def del: eval.simps)
  qed
qed

lemma eval_again:
  assumes f: "result_form s v" and x: "\<not> excluded s v"
  shows "eval (Suc (Suc j)) s v = Inr (v, s)"
proof -
  consider "irreducible s v" | "def_result s v" | "stored_result s v"
    using f x by (auto simp: result_form_def excluded_def)
  then show ?thesis
  proof cases
    case 1
    then show ?thesis by (rule irreducible_eval)
  next
    case 2
    then obtain a nm y where a: "v = Some a" "a < length (heap s)" "heap s ! a = def_term nm y"
      and y': "case y of None \<Rightarrow> True | Some b \<Rightarrow> b < length (heap s)"
      by (auto simp: def_result_def split: option.splits node.splits)
    have y: "y = None \<or> (\<exists>b. y = Some b \<and> b < length (heap s))"
      using y' by (cases y) simp_all
    have "\<not> reducible s y" using x a by (simp add: excluded_def look_def)
    with a y show ?thesis using eval_def_again by blast
  next
    case 3
    then obtain b where b: "v = Some b" "b < length (heap s)" "is_Term (heap s ! b)"
      and st: "stored s v"
      by (auto simp: stored_result_def split: option.splits)
    have "\<not> reducible s v" using x st by (simp add: excluded_def)
    then have "irreducible s v" using b by (simp add: reducible_def look_def)
    then show ?thesis by (rule irreducible_eval)
  qed
qed

lemma eval_def_pointer:
  "deref s v = Inr (def_term nm x) \<Longrightarrow> eval j s v = Inr (w, s') \<Longrightarrow> w = v"
  by (cases j)
    (auto simp: deref_Inr eval_def_def split: sum.splits option.splits prod.splits)

section \<open>Declarations and references\<close>

text \<open>
  Claim C1 says that evaluating the first \<^verbatim>\<open>Ref(d)\<close> evaluates the term of the
  declaration \<open>d\<close> and overwrites the stored value of \<open>d\<close> with the result. It does
  not: for the declaration \<^verbatim>\<open>n = succ 0\<close>, evaluating a reference returns the stored
  term \<^verbatim>\<open>succ 0\<close> as it is and changes nothing in the store.
\<close>

theorem ref_returns_stored_term:
  "eval 5 memo_state (Some 4) = Inr (Some 1, memo_state) \<and>
   deref memo_state (Some 1) = Inr (succ_term (Some 0)) \<and>
   deref memo_state (Some 3) = Inr (def_term (Some 2) (Some 1))"
  by (simp add: eval_nat_numeral memo_state_def eval_defs access_defs)

text \<open>
  Claim C1, amended. Evaluating a reference \<^verbatim>\<open>Ref(d)\<close> to a declaration whose value is
  a term evaluates nothing and changes nothing: it returns the pointer stored in \<open>d\<close>.
  Evaluating the declaration \<open>d\<close> itself evaluates its stored term and overwrites the
  stored value with the result. So every reference evaluated after the declaration
  returns the identical cached value without re-evaluation.
\<close>

theorem declaration_memoization:
  "(deref s t = Inr (ref_term d) \<and> deref s d = Inr (def_term nm v) \<and> deref s v = Inr nd \<and>
    is_Term nd
      \<longrightarrow> eval (1 + k) s t = Inr (v, s)) \<and>
   (deref s0 (Some a) = Inr (def_term nm0 v0) \<and> deref s0 v0 = Inr nd0 \<and> is_Term nd0 \<and>
    eval k0 s0 v0 = Inr (r, s1)
      \<longrightarrow> eval (1 + k0) s0 (Some a) = Inr (Some a, s1\<lparr>heap := (heap s1)[a := def_term nm0 r]\<rparr>))"
proof (intro conjI impI)
  assume h: "deref s t = Inr (ref_term d) \<and> deref s d = Inr (def_term nm v) \<and>
    deref s v = Inr nd \<and> is_Term nd"
  then obtain x where x: "t = Some x" "x < length (heap s)" "heap s ! x = ref_term d"
    by (auto simp: deref_Inr)
  from h obtain y where y: "v = Some y" by (auto simp: deref_Inr)
  have "cast is_Term s v = Inr v"
    using h by (simp add: cast_def look_deref)
  then show "eval (1 + k) s t = Inr (v, s)"
    using x y h by (simp add: eval_ref_def look_deref as_Def_def)
next
  assume h: "deref s0 (Some a) = Inr (def_term nm0 v0) \<and> deref s0 v0 = Inr nd0 \<and> is_Term nd0 \<and>
    eval k0 s0 v0 = Inr (r, s1)"
  then have a: "a < length (heap s0)" "heap s0 ! a = def_term nm0 v0"
    by (auto simp: deref_Inr)
  from h obtain y where y: "v0 = Some y" by (auto simp: deref_Inr)
  have c: "cast is_Term s0 v0 = Inr v0"
    using h by (simp add: cast_def look_deref)
  have "frame s0 s1" using h eval_frame by blast
  then obtain nd' where "deref s1 (Some a) = Inr nd'" "node_kept (def_term nm0 v0) nd'"
    using h frame_deref by blast
  then obtain v' where "heap s1 ! a = def_term nm0 v'"
    by (auto simp: deref_Inr dest: node_kept_def_term)
  then show "eval (1 + k0) s0 (Some a) = Inr (Some a, s1\<lparr>heap := (heap s1)[a := def_term nm0 r]\<rparr>)"
    using a y c h by (simp add: eval_def_def set_t2_def)
qed

theorem declaration_memoization_witness:
  "eval 3 memo_state (Some 3) = Inr (Some 3, memo_done) \<and>
   eval 2 memo_done (Some 4) = Inr (Some 6, memo_done) \<and>
   eval 2 memo_done (Some 5) = Inr (Some 6, memo_done)"
proof -
  let ?s1 = "memo_state\<lparr>heap := heap memo_state @ [int_term 1]\<rparr>"
  have e: "eval 2 memo_state (Some 1) = Inr (Some 6, ?s1)"
    by (simp add: eval_nat_numeral memo_state_def eval_defs access_defs)
  have d: "deref memo_state (Some 3) = Inr (def_term (Some 2) (Some 1))"
    "deref memo_state (Some 1) = Inr (succ_term (Some 0))" "is_Term (succ_term (Some 0))"
    by (simp_all add: memo_state_def access_defs)
  have m: "?s1\<lparr>heap := (heap ?s1)[3 := def_term (Some 2) (Some 6)]\<rparr> = memo_done"
    by (simp add: memo_state_def memo_done_def)
  have r: "deref memo_done (Some 4) = Inr (ref_term (Some 3))"
    "deref memo_done (Some 5) = Inr (ref_term (Some 3))"
    "deref memo_done (Some 3) = Inr (def_term (Some 2) (Some 6))"
    "deref memo_done (Some 6) = Inr (int_term 1)" "is_Term (int_term 1)"
    by (simp_all add: memo_done_def access_defs)
  have "eval (1 + 2) memo_state (Some 3) =
      Inr (Some 3, ?s1\<lparr>heap := (heap ?s1)[3 := def_term (Some 2) (Some 6)]\<rparr>)"
    using declaration_memoization [where ?s0.0 = memo_state and a = 3 and ?nm0.0 = "Some 2"
        and ?v0.0 = "Some 1" and ?nd0.0 = "succ_term (Some 0)" and ?k0.0 = 2 and r = "Some 6"
        and ?s1.0 = ?s1] e d
    by blast
  moreover have "eval (1 + 1) memo_done (Some 4) = Inr (Some 6, memo_done)"
    using declaration_memoization [where s = memo_done and t = "Some 4" and d = "Some 3"
        and nm = "Some 2" and v = "Some 6" and nd = "int_term 1" and k = 1] r
    by blast
  moreover have "eval (1 + 1) memo_done (Some 5) = Inr (Some 6, memo_done)"
    using declaration_memoization [where s = memo_done and t = "Some 5" and d = "Some 3"
        and nm = "Some 2" and v = "Some 6" and nd = "int_term 1" and k = 1] r
    by blast
  ultimately show ?thesis using m by (simp add: eval_nat_numeral del: eval.simps)
qed

section \<open>Table set operators\<close>

text \<open>
  The members of a union are the pointers that occur in either table, each once.
\<close>

lemma eval_union_table_members:
  assumes "eval_union_table s t1 t2 = Inr (v, s')"
  shows "\<exists>sc ms m1 m2. deref s' v = Inr (table_term sc ms) \<and> members_of s t1 = Inr m1 \<and>
     members_of s t2 = Inr m2 \<and> distinct ms \<and> set ms = set m1 \<union> set m2"
  using assms
  by (auto simp: eval_union_table_def new_node_def deref_def look_def split: sum.splits)

text \<open>
  Claim C2. The union of two tables has no duplicate records by structural equality,
  the intersection of a table with itself is the table without duplicates, and the
  difference of a table with itself is an empty table. The code does not do that.
  The union of the two one-record tables of \<open>set_state\<close> keeps both records, which
  \<^verbatim>\<open>is_same\<close> finds equal: the duplicates are removed from a set of pointers. The
  intersection and the difference of a table with itself end in undefined behaviour,
  their accumulators being used uninitialised.
\<close>

theorem table_set_operators:
  "(case eval (2 + k) set_state (Some 9) of
      Inl e \<Rightarrow> False
    | Inr (v, s') \<Rightarrow>
        deref s' v = Inr (table_term [Some 0] [Some 3, Some 6]) \<and>
        is_same s' (Some 3) (Some 6) = Inr True) \<and>
   eval (2 + k) set_state (Some 10) = Inl Undefined \<and>
   eval (2 + k) set_state (Some 11) = Inl Undefined"
proof (intro conjI)
  show "case eval (2 + k) set_state (Some 9) of
      Inl e \<Rightarrow> False
    | Inr (v, s') \<Rightarrow>
        deref s' v = Inr (table_term [Some 0] [Some 3, Some 6]) \<and>
        is_same s' (Some 3) (Some 6) = Inr True"
    by (simp add: add_2_eq_Suc set_state_def eval_union_def eval_union_table_def
        members_of_def schema_of_def ptr_address_def is_same_def same_set_def access_defs)
  show "eval (2 + k) set_state (Some 10) = Inl Undefined"
    by (simp add: add_2_eq_Suc set_state_def eval_intersect_def eval_intersect_table_def
        members_of_def is_same_def same_set_def access_defs)
  show "eval (2 + k) set_state (Some 11) = Inl Undefined"
    by (simp add: add_2_eq_Suc set_state_def eval_except_def eval_except_table_def
        members_of_def schema_of_def is_same_def same_set_def access_defs)
qed

section \<open>Calls with several arguments\<close>




section \<open>Natural-number arithmetic\<close>

text \<open>
  Claim C4. For every integer \<open>n \<ge> 0\<close>: evaluating \<^verbatim>\<open>Pred(Succ(n))\<close> gives the integer
  \<open>n\<close>; evaluating \<^verbatim>\<open>Pred(0)\<close> gives \<open>0\<close> (the predecessor of zero is zero, not a
  failure); evaluating \<^verbatim>\<open>Iszero(0)\<close> gives true; evaluating \<^verbatim>\<open>Iszero(Succ(n))\<close> gives
  false. The terms are nodes of an arbitrary store, and the results hold for every
  recursion bound that covers the depth of the term.
\<close>

theorem nat_arithmetic:
  "(0 \<le> n \<and> deref s t = Inr (pred_term a) \<and> deref s a = Inr (succ_term b) \<and>
    deref s b = Inr (int_term n)
      \<longrightarrow> eval_node (3 + k) s t = Inr (int_term n)) \<and>
   (deref s t = Inr (pred_term z) \<and> deref s z = Inr (int_term 0)
      \<longrightarrow> eval_node (2 + k) s t = Inr (int_term 0)) \<and>
   (deref s t = Inr (iszero_term z) \<and> deref s z = Inr (int_term 0)
      \<longrightarrow> eval_node (2 + k) s t = Inr true_term) \<and>
   (0 \<le> n \<and> deref s t = Inr (iszero_term a) \<and> deref s a = Inr (succ_term b) \<and>
    deref s b = Inr (int_term n)
      \<longrightarrow> eval_node (3 + k) s t = Inr false_term)"
proof (intro conjI impI)
  assume h: "0 \<le> n \<and> deref s t = Inr (pred_term a) \<and> deref s a = Inr (succ_term b) \<and>
    deref s b = Inr (int_term n)"
  then obtain x where x: "t = Some x" "x < length (heap s)" "heap s ! x = pred_term a"
    by (auto simp: deref_Inr)
  obtain v s' where n: "new_node (int_term (n + 1)) s = (v, s')" by force
  have e: "eval (Suc (Suc k)) s a = Inr (v, s')"
    using h eval_succ_int[of s a b n k] n by simp
  have d: "deref s' v = Inr (int_term (n + 1))" using n by (rule deref_new_node)
  obtain v2 s2 where n2: "new_node (int_term n) s' = (v2, s2)" by force
  have "eval (Suc (Suc (Suc k))) s t = Inr (v2, s2)"
    using x e d h n2 by (simp add: eval_pred_def look_deref as_Int_def)
  then show "eval_node (3 + k) s t = Inr (int_term n)"
    using deref_new_node[OF n2] by (simp add: eval_node_def numeral_3_eq_3)
next
  assume h: "deref s t = Inr (pred_term z) \<and> deref s z = Inr (int_term 0)"
  then obtain x where x: "t = Some x" "x < length (heap s)" "heap s ! x = pred_term z"
    by (auto simp: deref_Inr)
  have "eval (Suc k) s z = Inr (z, s)" using h by (intro eval_int) simp
  then have "eval (Suc (Suc k)) s t = Inr (z, s)"
    using x h by (simp add: eval_pred_def look_deref as_Int_def)
  then show "eval_node (2 + k) s t = Inr (int_term 0)"
    using h by (simp add: eval_node_def numeral_2_eq_2)
next
  assume h: "deref s t = Inr (iszero_term z) \<and> deref s z = Inr (int_term 0)"
  then obtain x where x: "t = Some x" "x < length (heap s)" "heap s ! x = iszero_term z"
    by (auto simp: deref_Inr)
  obtain v s' where n: "new_node true_term s = (v, s')" by force
  have "eval (Suc k) s z = Inr (z, s)" using h by (intro eval_int) simp
  then have "eval (Suc (Suc k)) s t = Inr (v, s')"
    using x h n by (simp add: eval_iszero_def look_deref as_Int_def)
  then show "eval_node (2 + k) s t = Inr true_term"
    using deref_new_node[OF n] by (simp add: eval_node_def numeral_2_eq_2)
next
  assume h: "0 \<le> n \<and> deref s t = Inr (iszero_term a) \<and> deref s a = Inr (succ_term b) \<and>
    deref s b = Inr (int_term n)"
  then obtain x where x: "t = Some x" "x < length (heap s)" "heap s ! x = iszero_term a"
    by (auto simp: deref_Inr)
  obtain v s' where n: "new_node (int_term (n + 1)) s = (v, s')" by force
  have e: "eval (Suc (Suc k)) s a = Inr (v, s')"
    using h eval_succ_int[of s a b n k] n by simp
  have d: "deref s' v = Inr (int_term (n + 1))" using n by (rule deref_new_node)
  obtain v2 s2 where n2: "new_node false_term s' = (v2, s2)" by force
  have "eval (Suc (Suc (Suc k))) s t = Inr (v2, s2)"
    using x e d h n2 by (simp add: eval_iszero_def look_deref as_Int_def)
  then show "eval_node (3 + k) s t = Inr false_term"
    using deref_new_node[OF n2] by (simp add: eval_node_def numeral_3_eq_3)
qed

theorem nat_arithmetic_witness:
  "eval_node 3 nat_state (Some 2) = Inr (int_term 7) \<and>
   eval_node 2 nat_state (Some 5) = Inr (int_term 0) \<and>
   eval_node 2 nat_state (Some 6) = Inr true_term \<and>
   eval_node 3 nat_state (Some 3) = Inr false_term"
  using nat_arithmetic [of 7 nat_state "Some 2" "Some 1" "Some 0" 0]
    nat_arithmetic [of 7 nat_state "Some 5" "Some 1" "Some 0" 0 "Some 4"]
    nat_arithmetic [of 7 nat_state "Some 6" "Some 1" "Some 0" 0 "Some 4"]
    nat_arithmetic [of 7 nat_state "Some 3" "Some 1" "Some 0" 0]
  by (simp add: nat_state_def deref_def look_def)

section \<open>Member access\<close>

text \<open>
  Claim C5. \<^verbatim>\<open>Mem(target, member)\<close> on a record returns the field bound to the label,
  on a table the projection of the column; exactly one case applies and the record
  case never falls through into the table case. The code does not do that: for the
  access \<^verbatim>\<open>{a = 1}.a\<close> the record case of \<^verbatim>\<open>eval_mem\<close> finds the field and drops it,
  control falls through into the table case, and the function ends without a
  \<^verbatim>\<open>return\<close>.
\<close>

theorem eval_mem_record: "eval (2 + k) mem_state (Some 5) = Inl Undefined"
  by (simp add: add_2_eq_Suc mem_state_def eval_mem_def mem_record_case_def mem_table_case_def
      eval_record_project_def eval_table_project_def is_same_def access_defs)

section \<open>Program sequencing\<close>

text \<open>
  A program with at least one statement evaluates the statements before the last in
  order, and its result is the result of the last statement, evaluated in the store
  the earlier ones left.
\<close>

lemma prog_loop_append:
  "prog_loop ev tn s (xs @ [x]) =
     (case prog_loop ev tn s xs of
        Inl e \<Rightarrow> Inl e
      | Inr (r, s1) \<Rightarrow> (case ev s1 x of Inl e \<Rightarrow> Inl e | Inr (v, s2) \<Rightarrow> Inr (Some v, s2)))"
  by (induction xs arbitrary: tn s) (auto split: sum.splits prod.splits)

lemma eval_prog_last:
  "eval_prog ev s (xs @ [x]) =
     (case prog_loop ev None s xs of Inl e \<Rightarrow> Inl e | Inr (r, s1) \<Rightarrow> ev s1 x)"
  by (simp add: eval_prog_def prog_loop_append split: sum.splits prod.splits)

text \<open>
  Claim C6. A program evaluates its statements in order and returns the value of the
  last one; the claim asks that an empty statement sequence be rejected as a fatal
  structural error and never return an uninitialised result. The code does not do
  that: for a program with no statement the loop of \<^verbatim>\<open>eval_prog\<close> never assigns
  \<^verbatim>\<open>tn\<close>, and the function returns the uninitialised variable.
\<close>

theorem eval_prog_empty: "eval (1 + k) prog_state (Some 0) = Inl Undefined"
  by (simp add: prog_state_def eval_prog_def)

section \<open>Reflexivity and idempotence\<close>

text \<open>
  Claim C7 says that a normal-form value evaluates to itself and that
  \<^verbatim>\<open>eval(eval(t)) == eval(t)\<close> for every term \<open>t\<close>. The second part fails in three
  ways. A reference to the declaration \<^verbatim>\<open>n = succ 0\<close>, not yet evaluated, evaluates to
  the term \<^verbatim>\<open>succ 0\<close>, and evaluating that result gives the integer \<open>1\<close>. A reference
  to the declaration of a type evaluates to the null pointer, on which \<^verbatim>\<open>eval\<close> is
  undefined. The declaration \<^verbatim>\<open>m = n\<close>, where \<^verbatim>\<open>n = succ true\<close> has not been
  evaluated, evaluates to itself and now holds the term \<^verbatim>\<open>succ true\<close>; evaluating it
  again evaluates that term, which is fatal.
\<close>

theorem eval_twice_differs:
  "eval_node 5 memo_state (Some 4) = Inr (succ_term (Some 0)) \<and>
   (case eval 5 memo_state (Some 4) of
      Inl e \<Rightarrow> False
    | Inr (v, s') \<Rightarrow> eval_node 5 s' v = Inr (int_term 1)) \<and>
   eval 5 idem_state (Some 3) = Inr (None, idem_state) \<and>
   eval 5 idem_state None = Inl Undefined \<and>
   eval 5 idem_state (Some 10) = Inr (Some 10, idem_done) \<and>
   eval 5 idem_done (Some 10) = Inl Fatal"
  by (simp add: eval_node_def eval_nat_numeral memo_state_def idem_state_def idem_done_def
      eval_defs access_defs)

text \<open>
  Claim C7, amended. A normal-form value (true, false, an integer, unit, an
  abstraction, a function, a table, a record) evaluates to itself and the store is
  unchanged. For every term \<open>t\<close> whose evaluation returns, evaluating the result again
  returns the same pointer and changes nothing, except in the three cases above: the
  result is the null pointer, the result is a declaration whose stored value is a
  reducible term, or the result is a reducible term stored in a declaration
  (\<open>excluded\<close>). A declaration evaluates to itself whenever its evaluation returns.
\<close>

theorem values_evaluate_to_themselves:
  "(deref s t = Inr nd \<and> is_value nd \<longrightarrow> eval (1 + k) s t = Inr (t, s)) \<and>
   (eval n s0 t0 = Inr (v, s') \<and> \<not> excluded s' v \<longrightarrow> eval (2 + j) s' v = Inr (v, s')) \<and>
   (deref s t = Inr (def_term nm x) \<and> eval i s t = Inr (w, s1) \<longrightarrow> w = t)"
proof (intro conjI impI)
  assume "deref s t = Inr nd \<and> is_value nd"
  then show "eval (1 + k) s t = Inr (t, s)"
    by (auto simp: deref_Inr is_value_def split: node.splits)
next
  assume h: "eval n s0 t0 = Inr (v, s') \<and> \<not> excluded s' v"
  then have "result_form s' v" by (blast dest: eval_result_form)
  then have "eval (Suc (Suc j)) s' v = Inr (v, s')" using h by (blast intro: eval_again)
  then show "eval (2 + j) s' v = Inr (v, s')" by (simp del: eval.simps)
next
  assume "deref s t = Inr (def_term nm x) \<and> eval i s t = Inr (w, s1)"
  then show "w = t" by (blast dest: eval_def_pointer)
qed

text \<open>
  The integer \<open>0\<close> evaluates to itself. The result of \<^verbatim>\<open>succ 0\<close>, a reference to the
  variable \<open>x\<close>, the declaration \<^verbatim>\<open>n = succ 0\<close> once evaluated and the stored value a
  reference to it then returns are not excluded, and each evaluates to itself.
\<close>

theorem values_evaluate_to_themselves_witness:
  "eval 1 memo_state (Some 0) = Inr (Some 0, memo_state) \<and>
   eval 2 memo_state (Some 1) = Inr (Some 6, memo_state\<lparr>heap := heap memo_state @ [int_term 1]\<rparr>) \<and>
   \<not> excluded (memo_state\<lparr>heap := heap memo_state @ [int_term 1]\<rparr>) (Some 6) \<and>
   eval 2 (memo_state\<lparr>heap := heap memo_state @ [int_term 1]\<rparr>) (Some 6) =
     Inr (Some 6, memo_state\<lparr>heap := heap memo_state @ [int_term 1]\<rparr>) \<and>
   deref idem_state (Some 13) = Inr (ref_term (Some 12)) \<and>
   eval 1 idem_state (Some 13) = Inr (Some 13, idem_state) \<and>
   \<not> excluded idem_state (Some 13) \<and>
   eval 2 idem_state (Some 13) = Inr (Some 13, idem_state) \<and>
   eval 3 memo_state (Some 3) = Inr (Some 3, memo_done) \<and>
   \<not> excluded memo_done (Some 3) \<and>
   eval 2 memo_done (Some 3) = Inr (Some 3, memo_done) \<and>
   eval 1 memo_done (Some 4) = Inr (Some 6, memo_done) \<and>
   \<not> excluded memo_done (Some 6) \<and>
   eval 2 memo_done (Some 6) = Inr (Some 6, memo_done) \<and>
   deref idem_state (Some 10) = Inr (def_term (Some 9) (Some 8)) \<and>
   eval 2 idem_state (Some 10) = Inr (Some 10, idem_done)"
proof -
  let ?s' = "memo_state\<lparr>heap := heap memo_state @ [int_term 1]\<rparr>"
  have e: "eval 2 memo_state (Some 1) = Inr (Some 6, ?s')"
    "eval 1 idem_state (Some 13) = Inr (Some 13, idem_state)"
    "eval 3 memo_state (Some 3) = Inr (Some 3, memo_done)"
    "eval 1 memo_done (Some 4) = Inr (Some 6, memo_done)"
    "eval 2 idem_state (Some 10) = Inr (Some 10, idem_done)"
    by (simp_all add: eval_nat_numeral memo_state_def memo_done_def idem_state_def idem_done_def
        eval_defs access_defs)
  have x: "\<not> excluded ?s' (Some 6)" "\<not> excluded idem_state (Some 13)"
    "\<not> excluded memo_done (Some 3)" "\<not> excluded memo_done (Some 6)"
    by (simp_all add: excluded_def reducible_def irreducible_def stored_def not_dispatched_def
        is_Term_def as_Def_def memo_state_def memo_done_def idem_state_def access_defs)
  have d: "deref memo_state (Some 0) = Inr (int_term 0)" "is_value (int_term 0)"
    "deref idem_state (Some 13) = Inr (ref_term (Some 12))"
    "deref idem_state (Some 10) = Inr (def_term (Some 9) (Some 8))"
    by (simp_all add: memo_state_def idem_state_def is_value_def access_defs)
  have "eval (1 + 0) memo_state (Some 0) = Inr (Some 0, memo_state)"
    using values_evaluate_to_themselves [where s = memo_state and t = "Some 0"
        and nd = "int_term 0" and k = 0] d
    by blast
  moreover have "eval (2 + 0) ?s' (Some 6) = Inr (Some 6, ?s')"
    using values_evaluate_to_themselves [where n = 2 and ?s0.0 = memo_state and ?t0.0 = "Some 1"
        and v = "Some 6" and s' = ?s' and j = 0] e x
    by blast
  moreover have "eval (2 + 0) idem_state (Some 13) = Inr (Some 13, idem_state)"
    using values_evaluate_to_themselves [where n = 1 and ?s0.0 = idem_state
        and ?t0.0 = "Some 13" and v = "Some 13" and s' = idem_state and j = 0] e x
    by blast
  moreover have "eval (2 + 0) memo_done (Some 3) = Inr (Some 3, memo_done)"
    using values_evaluate_to_themselves [where n = 3 and ?s0.0 = memo_state
        and ?t0.0 = "Some 3" and v = "Some 3" and s' = memo_done and j = 0] e x
    by blast
  moreover have "eval (2 + 0) memo_done (Some 6) = Inr (Some 6, memo_done)"
    using values_evaluate_to_themselves [where n = 1 and ?s0.0 = memo_done
        and ?t0.0 = "Some 4" and v = "Some 6" and s' = memo_done and j = 0] e x
    by blast
  moreover have "Some (10::nat) = Some 10"
    using values_evaluate_to_themselves [where s = idem_state and t = "Some 10"
        and nm = "Some 9" and x = "Some 8" and i = 2 and w = "Some 10" and ?s1.0 = idem_done] e d
    by blast
  ultimately show ?thesis using e x d by (simp del: eval.simps)
qed

section \<open>Negation\<close>

text \<open>
  The three outcomes of \<^verbatim>\<open>eval_not\<close> once the operand has been evaluated: false for
  true, true for false, and the end of the function for anything else.
\<close>

lemma eval_not_cases:
  assumes "ev s a = Inr (t1, s1)" and "deref s1 t1 = Inr nd"
  shows "eval_not ev s a =
     (if nd = true_term then Inr (get_false s1)
      else if nd = false_term then Inr (get_true s1)
      else Inl Undefined)"
  using assms by (simp add: eval_not_def is_true_def is_false_def)

text \<open>
  Claim C8. \<^verbatim>\<open>Not(t1)\<close> evaluates its operand, which must be boolean, and negates it;
  for an operand that is neither true nor false the claim asks for a reported type
  error instead of undefined behaviour. The code does not do that: for \<^verbatim>\<open>not 0\<close>
  both tests of \<^verbatim>\<open>eval_not\<close> fail and the function ends without a \<^verbatim>\<open>return\<close>, which
  is undefined behaviour and not the fatal error that \<^verbatim>\<open>eval_if\<close> raises in the same
  situation.
\<close>

theorem eval_not_int: "eval (2 + k) not_state (Some 1) = Inl Undefined"
  by (simp add: add_2_eq_Suc not_state_def eval_not_def access_defs)

section \<open>Output\<close>

text \<open>
  Claim C9. \<^verbatim>\<open>Print\<close> is the only operation that writes to the output stream; in
  particular evaluating a \<^verbatim>\<open>Less\<close> comparison writes nothing. The code does not do
  that: evaluating \<^verbatim>\<open>1 < 2\<close> with an empty output stream returns true and leaves the
  characters \<^verbatim>\<open>12\<close> on the stream, the renderings of both operands that \<^verbatim>\<open>eval_less\<close>
  sends to \<^verbatim>\<open>std::cout\<close>.
\<close>

theorem eval_less_writes:
  "(case eval (2 + k) less_state (Some 2) of
      Inl e \<Rightarrow> False
    | Inr (v, s') \<Rightarrow> deref s' v = Inr true_term \<and> cout less_state = [] \<and> cout s' = ''12'')"
  by (simp add: add_2_eq_Suc less_state_def eval_less_def is_less_def pretty_def pretty_node_def
      digits.simps access_defs)

section \<open>Term immutability\<close>

text \<open>
  Claim C10 says that evaluation mutates no term node except a \<^verbatim>\<open>Def\<close> node, and that
  evaluating a \<^verbatim>\<open>Call\<close> leaves its argument sequence unchanged. The second part fails:
  evaluating the call \<^verbatim>\<open>(fn (x) x)(succ 0)\<close> replaces the entry \<^verbatim>\<open>succ 0\<close> (index 5)
  of the argument sequence of the \<^verbatim>\<open>Call\<close> node by the evaluated argument (index
  7), as the comment in \<^verbatim>\<open>eval_call\<close> announces.
\<close>

theorem call_overwrites_arguments:
  "eval 5 call_state (Some 6) = Inr (Some 7, call_done) \<and>
   heap call_state ! 6 = call_term (Some 3) [Some 5] \<and>
   heap call_done ! 6 = call_term (Some 3) [Some 7]"
  by (simp add: eval_nat_numeral call_state_def call_done_def eval_defs access_defs)

text \<open>
  Claim C10, amended. Evaluation removes no node and mutates no existing node except
  a \<^verbatim>\<open>Def\<close> node, whose stored value may be overwritten (its name stays), and a
  \<^verbatim>\<open>Call\<close> node, whose argument entries may be overwritten in place (its target and the
  number of its arguments stay). A node of any other kind, an \<^verbatim>\<open>App\<close> in particular,
  is the same after the evaluation as before.
\<close>

theorem term_nodes_kept:
  "eval k s t = Inr (v, s') \<Longrightarrow> a < length (heap s) \<Longrightarrow>
     a < length (heap s') \<and> node_kept (heap s ! a) (heap s' ! a)"
  using eval_frame [of k s t v s'] by (auto simp: frame_nth)

theorem term_nodes_kept_witness:
  "eval 5 call_state (Some 6) = Inr (Some 7, call_done) \<and>
   node_kept (heap call_state ! 6) (heap call_done ! 6) \<and>
   node_kept (heap call_state ! 5) (heap call_done ! 5) \<and>
   heap call_done ! 5 = heap call_state ! 5"
proof -
  have e: "eval 5 call_state (Some 6) = Inr (Some 7, call_done)"
    by (simp add: eval_nat_numeral call_state_def call_done_def eval_defs access_defs)
  have l: "6 < length (heap call_state)" "5 < length (heap call_state)"
    by (simp_all add: call_state_def)
  show ?thesis
    using e term_nodes_kept [OF e l(1)] term_nodes_kept [OF e l(2)]
    by (simp add: call_state_def call_done_def)
qed

end
